theory Spec2Isabelle
  imports Complex_Main "HOL-Library.List_Lexorder" "HOL-Library.Log_Nat"
begin

section \<open>Python values\<close>

text \<open>
  A Python \<open>str\<close> is a sequence of Unicode code points and \<open>len\<close> counts code points, so a
  string is a list of code points. The literals of the source that are not ASCII are written
  as their code points.
\<close>

type_synonym pystr = "nat list"

definition ascii :: "string \<Rightarrow> pystr" where
  "ascii s = map of_char s"

text \<open>Decimal rendering of an integer, as \<open>str(int)\<close> and the f-strings produce it.\<close>

fun digits_of :: "nat \<Rightarrow> pystr" where
  "digits_of n = (if n < 10 then [48 + n] else digits_of (n div 10) @ [48 + n mod 10])"

declare digits_of.simps [simp del]

definition str_int :: "int \<Rightarrow> pystr" where
  "str_int i = (if i < 0 then 45 # digits_of (nat (- i)) else digits_of (nat i))"

text \<open>\<open>sep.join(parts)\<close>.\<close>

fun join :: "pystr \<Rightarrow> pystr list \<Rightarrow> pystr" where
  "join sep [] = []"
| "join sep [p] = p"
| "join sep (p # q # ps) = p @ sep @ join sep (q # ps)"

text \<open>
  The value \<open>resp.json()\<close> returns: any JSON document. A JSON number is an \<open>int\<close> or a
  \<open>float\<close>; of a float only its being zero is ever inspected.
\<close>

datatype json =
    JNull
  | JBool bool
  | JInt int
  | JFloat real
  | JStr pystr
  | JArr "json list"
  | JObj "(pystr \<times> json) list"

datatype exc =
    ContentBlockedError pystr
  | RuntimeError pystr
  | HTTPError int
  | AttributeError
  | TypeError
  | KeyError
  | IndexError
  | ValueError
  | OverflowError
  | OSError
  | UnicodeDecodeError
  | ExternalError pystr

text \<open>
  \<open>ExternalError\<close> stands for what the libraries raise on their own (a connection error or
  timeout of \<open>requests\<close>, a JSON decoding error, an \<open>OSError\<close>, an error of Pillow or
  PyPDF2): an \<open>Exception\<close> that is neither a \<open>RuntimeError\<close> nor a \<open>ContentBlockedError\<close>, nor
  a \<open>ValueError\<close>.
\<close>

subsection \<open>Floats\<close>

text \<open>
  A Python \<open>float\<close> is an IEEE 754 binary64 number: \<open>Finite m x\<close> is the number \<open>m * 2 ^ x\<close>,
  which is a float when \<open>m\<close> has at most 53 bits and \<open>x\<close> is between -1074 and 971; the two
  infinities and not-a-number are the other floats. The two zeros are not told apart: no
  operation here depends on the sign of a zero.
\<close>

datatype pyfloat = Finite int int | PosInf | NegInf | NaN


text \<open>
  \<open>a / 2 ^ s\<close> for a natural \<open>a\<close>, rounded to the nearest integer, a tie to the even one.
\<close>

definition round_shift :: "int \<Rightarrow> nat \<Rightarrow> int" where
  "round_shift a s =
     (let q = a div 2 ^ s; r = a mod 2 ^ s
      in if 2 * r < 2 ^ s then q
         else if 2 * r > 2 ^ s then q + 1
         else if even q then q else q + 1)"

text \<open>
  The float nearest to \<open>m * 2 ^ x\<close> (round to nearest, ties to even, as the hardware and
  the conversion of an \<open>int\<close> do): the magnitude is cut to 53 bits, or to fewer where the
  exponent would fall below -1074, and a result of \<open>2 ^ 1024\<close> or more is an infinity.
\<close>

definition to_float :: "int \<Rightarrow> int \<Rightarrow> pyfloat" where
  "to_float m x =
     (if m = 0 then Finite 0 x
      else
        let a = \<bar>m\<bar>;
            s = max 0 (max (bitlen a - 53) (- 1074 - x));
            q = (if s = 0 then a else round_shift a (nat s));
            y = x + s
        in if bitlen q + y > 1024 then (if m < 0 then NegInf else PosInf)
           else Finite (if m < 0 then - q else q) y)"

text \<open>\<open>float(n)\<close> for an \<open>int\<close>, as \<open>float * int\<close> converts its right operand.\<close>

definition int_to_float :: "int \<Rightarrow> exc + pyfloat" where
  "int_to_float n =
     (case to_float n 0 of Finite m x \<Rightarrow> Inr (Finite m x) | other \<Rightarrow> Inl OverflowError)"

text \<open>The product of two floats.\<close>

fun float_mul :: "pyfloat \<Rightarrow> pyfloat \<Rightarrow> pyfloat" where
  "float_mul NaN b = NaN"
| "float_mul a NaN = NaN"
| "float_mul (Finite m x) (Finite n y) = to_float (m * n) (x + y)"
| "float_mul (Finite m x) PosInf = (if m = 0 then NaN else if m < 0 then NegInf else PosInf)"
| "float_mul (Finite m x) NegInf = (if m = 0 then NaN else if m < 0 then PosInf else NegInf)"
| "float_mul PosInf (Finite n y) = (if n = 0 then NaN else if n < 0 then NegInf else PosInf)"
| "float_mul NegInf (Finite n y) = (if n = 0 then NaN else if n < 0 then PosInf else NegInf)"
| "float_mul PosInf PosInf = PosInf"
| "float_mul PosInf NegInf = NegInf"
| "float_mul NegInf PosInf = NegInf"
| "float_mul NegInf NegInf = PosInf"


text \<open>Truth value of a JSON value in a condition (\<open>if choices and ...\<close>, \<open>if content:\<close>).\<close>

fun truthy :: "json \<Rightarrow> bool" where
  "truthy JNull = False"
| "truthy (JBool b) = b"
| "truthy (JInt i) = (i \<noteq> 0)"
| "truthy (JFloat r) = (r \<noteq> 0)"
| "truthy (JStr s) = (s \<noteq> [])"
| "truthy (JArr xs) = (xs \<noteq> [])"
| "truthy (JObj kvs) = (kvs \<noteq> [])"

text \<open>\<open>d.get(key, default)\<close>: only a dict has the method.\<close>

fun py_get :: "json \<Rightarrow> pystr \<Rightarrow> json \<Rightarrow> exc + json" where
  "py_get (JObj kvs) k dflt = Inr (case map_of kvs k of None \<Rightarrow> dflt | Some v \<Rightarrow> v)"
| "py_get _ k dflt = Inl AttributeError"

text \<open>\<open>x[0]\<close>: the keys of a parsed JSON object are strings, so the key \<open>0\<close> is never there.\<close>

fun item0 :: "json \<Rightarrow> exc + json" where
  "item0 (JArr []) = Inl IndexError"
| "item0 (JArr (x # xs)) = Inr x"
| "item0 (JStr []) = Inl IndexError"
| "item0 (JStr (c # cs)) = Inr (JStr [c])"
| "item0 (JObj kvs) = Inl KeyError"
| "item0 _ = Inl TypeError"

text \<open>\<open>len(x)\<close>.\<close>

fun py_len :: "json \<Rightarrow> exc + nat" where
  "py_len (JStr s) = Inr (length s)"
| "py_len (JArr xs) = Inr (length xs)"
| "py_len (JObj kvs) = Inr (length kvs)"
| "py_len _ = Inl TypeError"

section \<open>Requests, responses, configuration and the outside world\<close>

datatype part = TextPart pystr | ImageUrlPart pystr

datatype content = Text pystr | Parts "part list"

record message =
  role :: pystr
  content :: content

record payload =
  model :: pystr
  messages :: "message list"

text \<open>
  A \<open>requests.Response\<close>: the status, the body text, and what \<open>resp.json()\<close> gives for it
  (the parsed document, or the exception of the parser).
\<close>

record response =
  status_code :: int
  body_text :: pystr
  body_json :: "exc + json"

text \<open>
  \<open>Path\<close> objects are given by what the program observes of them: \<open>parts\<close> (which orders
  them, so \<open>sorted\<close> sorts by it), \<open>name\<close>, \<open>suffix\<close> and \<open>str(path)\<close>.
\<close>

record path =
  path_parts :: "pystr list"
  path_name :: pystr
  path_suffix :: pystr
  path_str :: pystr

datatype processor = TextProcessor | PDFProcessor | ImageProcessor

text \<open>
  The configuration of \<open>config.py\<close> and the collaborators outside the repository. The HTTP
  server answers the \<open>k\<close>-th request of a run (counted from 0) as \<open>requests_post k payload\<close>
  says: a response, or an exception of the \<open>requests\<close> library.
  \<open>unicode_lower\<close> is \<open>str.lower\<close> on strings with a code point beyond ASCII,
  \<open>py_str\<close> is \<open>str()\<close> on a value that is not a string, and \<open>pysleep_error\<close> is the error
  of the platform's sleep for a number of nanoseconds (\<open>OSError\<close> for one it does not take),
  \<open>None\<close> when it sleeps.
\<close>

record env =
  OPENROUTER_API_KEY :: pystr
  TEXT_MODEL :: pystr
  VISION_MODEL :: pystr
  VISION_FALLBACK_MODELS :: "pystr list"
  DOWNLOAD_DIR :: pystr
  MAX_RETRIES :: int
  RETRY_DELAY :: pyfloat
  requests_post :: "nat \<Rightarrow> payload \<Rightarrow> exc + response"
  unicode_lower :: "pystr \<Rightarrow> pystr"
  py_str :: "json \<Rightarrow> pystr"
  Path :: "pystr \<Rightarrow> path"
  mkdir :: "path \<Rightarrow> exc option"
  gdown_download_folder :: "pystr \<Rightarrow> pystr \<Rightarrow> exc + pystr list option"
  read_text :: "path \<Rightarrow> pystr \<Rightarrow> exc + pystr"
  PdfReader :: "pystr \<Rightarrow> exc + (exc + pystr) list"
  prepare_image :: "path \<Rightarrow> exc + pystr"
  pysleep_error :: "int \<Rightarrow> exc option"

text \<open>
  The state a run changes: the requests sent so far, the sleeps made, the calls of
  \<open>llm_client.chat\<close> (prompt and system message) and of a processor's \<open>extract\<close>, and the
  module-level registry \<open>_EXTENSION_MAP\<close>.
\<close>

record world =
  posts :: "payload list"
  sleeps :: "pyfloat list"
  chat_calls :: "(pystr \<times> pystr) list"
  extract_calls :: "(processor \<times> path) list"
  EXTENSION_MAP :: "pystr \<rightharpoonup> processor"

definition post :: "env \<Rightarrow> payload \<Rightarrow> world \<Rightarrow> (exc + response) \<times> world" where
  "post e p w = (requests_post e (length (posts w)) p, w\<lparr>posts := posts w @ [p]\<rparr>)"

text \<open>
  \<open>time.sleep(wait)\<close>. Not-a-number raises \<open>ValueError\<close>. The length is converted to
  nanoseconds: the float product with \<open>1e9\<close>, rounded away from zero to an integer, which
  must lie in the range of a signed 64-bit integer, or else \<open>OverflowError\<close> is raised. A
  negative number of nanoseconds raises \<open>ValueError\<close>. Then the platform sleeps, or fails.
\<close>

definition round_away :: "int \<Rightarrow> int \<Rightarrow> int" where
  "round_away m x =
     (if 0 \<le> x then m * 2 ^ nat x
      else if 0 \<le> m then (m + 2 ^ nat (- x) - 1) div 2 ^ nat (- x)
      else - ((- m + 2 ^ nat (- x) - 1) div 2 ^ nat (- x)))"

definition seconds_to_ns :: "pyfloat \<Rightarrow> int option" where
  "seconds_to_ns secs =
     (case float_mul secs (Finite 1000000000 0) of
        Finite m x \<Rightarrow>
          (let ns = round_away m x
           in if - (2 ^ 63) \<le> ns \<and> ns < 2 ^ 63 then Some ns else None)
      | other \<Rightarrow> None)"

definition sleep_error :: "env \<Rightarrow> pyfloat \<Rightarrow> exc option" where
  "sleep_error e secs =
     (if secs = NaN then Some ValueError
      else case seconds_to_ns secs of
             None \<Rightarrow> Some OverflowError
           | Some ns \<Rightarrow> if ns < 0 then Some ValueError else pysleep_error e ns)"

definition time_sleep :: "env \<Rightarrow> pyfloat \<Rightarrow> world \<Rightarrow> (exc + unit) \<times> world" where
  "time_sleep e secs w =
     (case sleep_error e secs of
        Some x \<Rightarrow> (Inl x, w)
      | None \<Rightarrow> (Inr (), w\<lparr>sleeps := sleeps w @ [secs]\<rparr>))"

text \<open>A value inside an f-string.\<close>

definition fmt :: "env \<Rightarrow> json \<Rightarrow> pystr" where
  "fmt e v = (case v of JStr s \<Rightarrow> s | _ \<Rightarrow> py_str e v)"

section \<open>llm\_client.py\<close>

text \<open>
  \<open>raise_for_status\<close> raises for a status from 400 to 599, and the truth value of a
  response (\<open>if last_resp\<close>) is its \<open>ok\<close>: that \<open>raise_for_status\<close> would not raise.
\<close>

definition raise_for_status :: "response \<Rightarrow> exc option" where
  "raise_for_status r =
     (if 400 \<le> status_code r \<and> status_code r < 600 then Some (HTTPError (status_code r)) else None)"

definition response_truthy :: "response \<Rightarrow> bool" where
  "response_truthy r = (raise_for_status r = None)"

text \<open>\<open>choices[0].get("message", {}).get("content")\<close>\<close>

definition first_choice_content :: "json \<Rightarrow> exc + json" where
  "first_choice_content choices =
     (case item0 choices of
        Inl x \<Rightarrow> Inl x
      | Inr c \<Rightarrow>
          (case py_get c (ascii ''message'') (JObj []) of
             Inl x \<Rightarrow> Inl x
           | Inr m \<Rightarrow> py_get m (ascii ''content'') JNull))"

text \<open>\<open>data.get("error", {}).get("message", "")\<close>\<close>

definition error_message :: "json \<Rightarrow> exc + json" where
  "error_message data =
     (case py_get data (ascii ''error'') (JObj []) of
        Inl x \<Rightarrow> Inl x
      | Inr err \<Rightarrow> py_get err (ascii ''message'') (JStr []))"

text \<open>
  The branch \<open>if resp.status_code == 200\<close>: it returns the reply, raises, or ends without
  either (after the warning, when the error message is not empty) and control goes on to the
  checks of the status below it.
\<close>

datatype branch200 = Reply json | Raises exc | FallsThrough json

definition status_200_branch :: "response \<Rightarrow> branch200" where
  "status_200_branch resp =
     (case body_json resp of
        Inl x \<Rightarrow> Raises x
      | Inr data \<Rightarrow>
          (case py_get data (ascii ''choices'') JNull of
             Inl x \<Rightarrow> Raises x
           | Inr choices \<Rightarrow>
               (case (if truthy choices then first_choice_content choices else Inr choices) of
                  Inl x \<Rightarrow> Raises x
                | Inr c \<Rightarrow>
                    if truthy choices \<and> truthy c then Reply c
                    else (case error_message data of
                            Inl x \<Rightarrow> Raises x
                          | Inr error_msg \<Rightarrow> FallsThrough error_msg))))"

text \<open>The message of the \<open>ContentBlockedError\<close> of the 403 branch.\<close>

definition blocked_error_body :: "response \<Rightarrow> json" where
  "blocked_error_body resp =
     (case body_json resp of
        Inl x \<Rightarrow> JStr (take 300 (body_text resp))
      | Inr data \<Rightarrow>
          (case error_message data of
             Inl x \<Rightarrow> JStr (take 300 (body_text resp))
           | Inr error_body \<Rightarrow> error_body))"

definition blocked_message :: "env \<Rightarrow> payload \<Rightarrow> response \<Rightarrow> pystr" where
  "blocked_message e p resp =
     ascii ''Model '' @ model p @ ascii '' returned 403: '' @ fmt e (blocked_error_body resp)"

text \<open>The message of the \<open>RuntimeError\<close> after the loop.\<close>

definition exhausted_message :: "env \<Rightarrow> response option \<Rightarrow> pystr" where
  "exhausted_message e last_resp =
     ascii ''OpenRouter request failed after '' @ str_int (MAX_RETRIES e) @ ascii '' retries. ''
     @ ascii ''Last status: ''
     @ (case last_resp of
          None \<Rightarrow> ascii ''?''
        | Some r \<Rightarrow> if response_truthy r then str_int (status_code r) else ascii ''?'')
     @ ascii '', body: ''
     @ (case last_resp of
          None \<Rightarrow> ascii ''N/A''
        | Some r \<Rightarrow> if response_truthy r then take 500 (body_text r) else ascii ''N/A'')"

text \<open>
  \<open>wait = RETRY_DELAY * attempt\<close>: the attempt number is converted to a float, which raises
  \<open>OverflowError\<close> when it is too large, and the two floats are multiplied.
\<close>

definition wait :: "env \<Rightarrow> int \<Rightarrow> exc + pyfloat" where
  "wait e attempt =
     (case int_to_float attempt of
        Inl x \<Rightarrow> Inl x
      | Inr a \<Rightarrow> Inr (float_mul (RETRY_DELAY e) a))"

text \<open>
  The loop \<open>for attempt in range(1, MAX_RETRIES + 1)\<close> of \<open>_request_with_retry\<close>, over the
  attempt numbers still to come, and the \<open>raise RuntimeError\<close> after it.
\<close>

fun request_attempts ::
  "env \<Rightarrow> payload \<Rightarrow> int list \<Rightarrow> response option \<Rightarrow> world \<Rightarrow> (exc + json) \<times> world" where
  "request_attempts e p [] last_resp w = (Inl (RuntimeError (exhausted_message e last_resp)), w)"
| "request_attempts e p (attempt # rest) last_resp w =
     (case post e p w of
        (Inl x, w1) \<Rightarrow> (Inl x, w1)
      | (Inr resp, w1) \<Rightarrow>
          (case (if status_code resp = 200 then status_200_branch resp else FallsThrough JNull) of
             Reply c \<Rightarrow> (Inr c, w1)
           | Raises x \<Rightarrow> (Inl x, w1)
           | FallsThrough error_msg \<Rightarrow>
               if status_code resp \<in> {429, 402, 503} then
                 (case wait e attempt of
                    Inl x \<Rightarrow> (Inl x, w1)
                  | Inr secs \<Rightarrow>
                      (case time_sleep e secs w1 of
                         (Inl x, w2) \<Rightarrow> (Inl x, w2)
                       | (Inr u, w2) \<Rightarrow> request_attempts e p rest (Some resp) w2))
               else if status_code resp = 403 then
                 (Inl (ContentBlockedError (blocked_message e p resp)), w1)
               else
                 (case raise_for_status resp of
                    Some x \<Rightarrow> (Inl x, w1)
                  | None \<Rightarrow> request_attempts e p rest (Some resp) w1)))"

definition request_with_retry :: "env \<Rightarrow> payload \<Rightarrow> world \<Rightarrow> (exc + json) \<times> world" where
  "request_with_retry e p w = request_attempts e p [1 .. MAX_RETRIES e] None w"

text \<open>\<open>chat\<close>: the system message is added when it is not empty.\<close>

definition chat :: "env \<Rightarrow> pystr \<Rightarrow> pystr \<Rightarrow> world \<Rightarrow> (exc + json) \<times> world" where
  "chat e prompt system w =
     (let w0 = w\<lparr>chat_calls := chat_calls w @ [(prompt, system)]\<rparr>;
          msgs = (if system \<noteq> [] then [\<lparr>role = ascii ''system'', content = Text system\<rparr>] else [])
                 @ [\<lparr>role = ascii ''user'', content = Text prompt\<rparr>]
      in case request_with_retry e \<lparr>model = TEXT_MODEL e, messages = msgs\<rparr> w0 of
           (Inl x, w1) \<Rightarrow> (Inl x, w1)
         | (Inr reply, w1) \<Rightarrow>
             (case py_len reply of Inl x \<Rightarrow> (Inl x, w1) | Inr n \<Rightarrow> (Inr reply, w1)))"

text \<open>
  The candidate models of \<open>describe_image\<close>: the loop
  \<open>for fb in VISION_FALLBACK_MODELS: if fb not in models_to_try: models_to_try.append(fb)\<close>
  and the list it starts from.
\<close>

fun add_fallbacks :: "pystr list \<Rightarrow> pystr list \<Rightarrow> pystr list" where
  "add_fallbacks models_to_try [] = models_to_try"
| "add_fallbacks models_to_try (fb # fbs) =
     add_fallbacks (if fb \<notin> set models_to_try then models_to_try @ [fb] else models_to_try) fbs"

definition models_to_try :: "env \<Rightarrow> pystr list" where
  "models_to_try e = add_fallbacks [VISION_MODEL e] (VISION_FALLBACK_MODELS e)"

text \<open>
  \<open>f"{last_error}"\<close>: the message of the exception, \<open>None\<close> when there is none. Only the
  two exceptions that \<open>describe_image\<close> catches are ever recorded.
\<close>

fun exc_str :: "exc \<Rightarrow> pystr" where
  "exc_str (ContentBlockedError m) = m"
| "exc_str (RuntimeError m) = m"

definition all_failed_message :: "exc option \<Rightarrow> pystr" where
  "all_failed_message last_error =
     ascii ''All vision models failed. Last error: ''
     @ (case last_error of None \<Rightarrow> ascii ''None'' | Some x \<Rightarrow> exc_str x)"

text \<open>The loop \<open>for model in models_to_try\<close> of \<open>describe_image\<close> and the raise after it.\<close>

fun try_models ::
  "env \<Rightarrow> message list \<Rightarrow> pystr list \<Rightarrow> exc option \<Rightarrow> world \<Rightarrow> (exc + json) \<times> world" where
  "try_models e msgs [] last_error w = (Inl (RuntimeError (all_failed_message last_error)), w)"
| "try_models e msgs (m # ms) last_error w =
     (case request_with_retry e \<lparr>model = m, messages = msgs\<rparr> w of
        (Inr reply, w1) \<Rightarrow>
          (case py_len reply of Inl x \<Rightarrow> (Inl x, w1) | Inr n \<Rightarrow> (Inr reply, w1))
      | (Inl (ContentBlockedError t), w1) \<Rightarrow> try_models e msgs ms (Some (ContentBlockedError t)) w1
      | (Inl (RuntimeError t), w1) \<Rightarrow> try_models e msgs ms (Some (RuntimeError t)) w1
      | (Inl x, w1) \<Rightarrow> (Inl x, w1))"

text \<open>\<open>describe_image\<close>: the message list it sends, and the walk over the candidates.\<close>

definition vision_messages :: "pystr \<Rightarrow> pystr \<Rightarrow> message list" where
  "vision_messages data_url prompt =
     [\<lparr>role = ascii ''user'', content = Parts [TextPart prompt, ImageUrlPart data_url]\<rparr>]"

definition describe_image :: "env \<Rightarrow> pystr \<Rightarrow> pystr \<Rightarrow> world \<Rightarrow> (exc + json) \<times> world" where
  "describe_image e data_url prompt w =
     try_models e (vision_messages data_url prompt) (models_to_try e) None w"

section \<open>processors/base.py\<close>

text \<open>
  \<open>str.lower\<close>: on a string of ASCII code points it maps \<open>A\<close>..\<open>Z\<close> to \<open>a\<close>..\<open>z\<close> and leaves
  the rest; on any other string it is the Unicode lowercasing of the interpreter.
\<close>

definition ascii_lower :: "nat \<Rightarrow> nat" where
  "ascii_lower c = (if 65 \<le> c \<and> c \<le> 90 then c + 32 else c)"

definition lower :: "env \<Rightarrow> pystr \<Rightarrow> pystr" where
  "lower e s = (if list_all (\<lambda>c. c < 128) s then map ascii_lower s else unicode_lower e s)"

definition register_processor :: "env \<Rightarrow> pystr \<Rightarrow> processor \<Rightarrow> world \<Rightarrow> world" where
  "register_processor e extension processor_cls w =
     (let ext = lower e extension
      in w\<lparr>EXTENSION_MAP := (EXTENSION_MAP w)(ext \<mapsto> processor_cls)\<rparr>)"

definition get_processor :: "env \<Rightarrow> path \<Rightarrow> world \<Rightarrow> processor option" where
  "get_processor e file_path w =
     (let ext = lower e (path_suffix file_path)
      in case EXTENSION_MAP w ext of None \<Rightarrow> None | Some cls \<Rightarrow> Some cls)"

text \<open>The registrations a sequence of \<open>register_processor\<close> calls makes, in order.\<close>

fun register_all :: "env \<Rightarrow> (pystr \<times> processor) list \<Rightarrow> world \<Rightarrow> world" where
  "register_all e [] w = w"
| "register_all e ((extension, cls) # regs) w =
     register_all e regs (register_processor e extension cls w)"

text \<open>
  The registrations at import time, in the order \<open>summarizer.py\<close> imports the processor
  modules: image, PDF, text.
\<close>

definition import_registrations :: "(pystr \<times> processor) list" where
  "import_registrations =
     map (\<lambda>x. (ascii x, ImageProcessor))
       [''.jpg'', ''.jpeg'', ''.png'', ''.gif'', ''.webp'', ''.bmp'', ''.tiff'', ''.tif'']
     @ [(ascii ''.pdf'', PDFProcessor)]
     @ map (\<lambda>x. (ascii x, TextProcessor))
       [''.txt'', ''.md'', ''.csv'', ''.json'', ''.xml'', ''.html'', ''.htm'', ''.log'', ''.rst'']"

section \<open>The processors\<close>

text \<open>
  \<open>TextProcessor.extract\<close>: the loop over \<open>ENCODINGS\<close>; \<open>UnicodeDecodeError\<close> and
  \<open>ValueError\<close> go on to the next encoding, any other exception leaves the function.
\<close>

definition ENCODINGS :: "pystr list" where
  "ENCODINGS = [ascii ''utf-8'', ascii ''cp1251'', ascii ''latin-1'']"

fun try_encodings :: "env \<Rightarrow> path \<Rightarrow> pystr list \<Rightarrow> exc + pystr" where
  "try_encodings e file_path [] = Inr []"
| "try_encodings e file_path (enc # encs) =
     (case read_text e file_path enc of
        Inr t \<Rightarrow> Inr t
      | Inl UnicodeDecodeError \<Rightarrow> try_encodings e file_path encs
      | Inl ValueError \<Rightarrow> try_encodings e file_path encs
      | Inl x \<Rightarrow> Inl x)"

definition text_extract :: "env \<Rightarrow> path \<Rightarrow> exc + pystr" where
  "text_extract e file_path = try_encodings e file_path ENCODINGS"

text \<open>
  \<open>PDFProcessor.extract\<close>: \<open>PdfReader\<close> gives, page by page, what \<open>page.extract_text() or ""\<close>
  is (or the exception it raises); a page whose text is empty after \<open>strip()\<close> is skipped.
\<close>

definition py_isspace :: "nat \<Rightarrow> bool" where
  "py_isspace c =
     (c \<in> set [9, 10, 11, 12, 13, 28, 29, 30, 31, 32, 133, 160, 5760, 8192, 8193, 8194, 8195,
               8196, 8197, 8198, 8199, 8200, 8201, 8202, 8232, 8233, 8239, 8287, 12288])"

definition strip_truthy :: "pystr \<Rightarrow> bool" where
  "strip_truthy t = list_ex (\<lambda>c. \<not> py_isspace c) t"

fun collect_pages :: "(exc + pystr) list \<Rightarrow> pystr list \<Rightarrow> exc + pystr list" where
  "collect_pages [] pages = Inr pages"
| "collect_pages (Inl x # rest) pages = Inl x"
| "collect_pages (Inr t # rest) pages =
     collect_pages rest (if strip_truthy t then pages @ [t] else pages)"

definition pdf_extract :: "env \<Rightarrow> path \<Rightarrow> exc + pystr" where
  "pdf_extract e file_path =
     (case PdfReader e (path_str file_path) of
        Inl x \<Rightarrow> Inl x
      | Inr reader_pages \<Rightarrow>
          (case collect_pages reader_pages [] of
             Inl x \<Rightarrow> Inl x
           | Inr pages \<Rightarrow> Inr (join [10, 10] pages)))"

text \<open>\<open>ImageProcessor.extract\<close>, with the prompt it sends.\<close>

definition IMAGE_PROMPT :: pystr where
  "IMAGE_PROMPT =
     [1069, 1090, 1086, 32, 1080, 1079, 1086, 1073, 1088, 1072, 1078, 1077, 1085, 1080, 1077,
      32, 8212, 32, 1089, 1082, 1086, 1088, 1077, 1077, 32, 1074, 1089, 1077, 1075, 1086, 32,
      1089, 1082, 1072, 1085, 32, 1080, 1083, 1080, 32, 1092, 1086, 1090, 1086, 1075, 1088,
      1072, 1092, 1080, 1103, 32, 1076, 1086, 1082, 1091, 1084, 1077, 1085, 1090, 1072, 47,
      1089, 1090, 1088, 1072, 1085, 1080, 1094, 1099, 46, 32, 1050, 1072, 1095, 1077, 1089,
      1090, 1074, 1086, 32, 1084, 1086, 1078, 1077, 1090, 32, 1073, 1099, 1090, 1100, 32, 1085,
      1077, 1074, 1099, 1089, 1086, 1082, 1080, 1084, 46, 32, 49, 41, 32, 1042, 1085, 1080,
      1084, 1072, 1090, 1077, 1083, 1100, 1085, 1086, 32, 1088, 1072, 1089, 1087, 1086, 1079,
      1085, 1072, 1081, 32, 1080, 32, 1087, 1077, 1088, 1077, 1087, 1080, 1096, 1080, 32, 1042,
      1045, 1057, 1068, 32, 1090, 1077, 1082, 1089, 1090, 44, 32, 1082, 1086, 1090, 1086, 1088,
      1099, 1081, 32, 1074, 1080, 1076, 1080, 1096, 1100, 32, 1085, 1072, 32, 1080, 1079, 1086,
      1073, 1088, 1072, 1078, 1077, 1085, 1080, 1080, 46, 32, 1045, 1089, 1083, 1080, 32, 1090,
      1077, 1082, 1089, 1090, 32, 1085, 1072, 32, 1088, 1091, 1089, 1089, 1082, 1086, 1084, 32,
      1103, 1079, 1099, 1082, 1077, 32, 8212, 32, 1087, 1080, 1096, 1080, 32, 1085, 1072, 32,
      1088, 1091, 1089, 1089, 1082, 1086, 1084, 46, 32, 50, 41, 32, 1045, 1089, 1083, 1080, 32,
      1090, 1077, 1082, 1089, 1090, 32, 1085, 1077, 1095, 1080, 1090, 1072, 1077, 1084, 32,
      1080, 1083, 1080, 32, 1086, 1090, 1089, 1091, 1090, 1089, 1090, 1074, 1091, 1077, 1090,
      44, 32, 1086, 1087, 1080, 1096, 1080, 32, 1089, 1086, 1076, 1077, 1088, 1078, 1080, 1084,
      1086, 1077, 32, 1080, 1079, 1086, 1073, 1088, 1072, 1078, 1077, 1085, 1080, 1103, 32,
      1084, 1072, 1082, 1089, 1080, 1084, 1072, 1083, 1100, 1085, 1086, 32, 1087, 1086, 1076,
      1088, 1086, 1073, 1085, 1086, 46, 32, 51, 41, 32, 1059, 1082, 1072, 1078, 1080, 32, 1103,
      1079, 1099, 1082, 32, 1090, 1077, 1082, 1089, 1090, 1072, 32, 1080, 32, 1086, 1073, 1097,
      1080, 1081, 32, 1090, 1080, 1087, 32, 1076, 1086, 1082, 1091, 1084, 1077, 1085, 1090,
      1072, 32, 40, 1077, 1089, 1083, 1080, 32, 1074, 1086, 1079, 1084, 1086, 1078, 1085, 1086,
      32, 1086, 1087, 1088, 1077, 1076, 1077, 1083, 1080, 1090, 1100, 41, 46]"

definition image_extract :: "env \<Rightarrow> path \<Rightarrow> world \<Rightarrow> (exc + json) \<times> world" where
  "image_extract e file_path w =
     (case prepare_image e file_path of
        Inl x \<Rightarrow> (Inl x, w)
      | Inr data_url \<Rightarrow>
          (case describe_image e data_url IMAGE_PROMPT w of
             (Inl x, w1) \<Rightarrow> (Inl x, w1)
           | (Inr description, w1) \<Rightarrow>
               (case py_len description of
                  Inl x \<Rightarrow> (Inl x, w1)
                | Inr n \<Rightarrow> (Inr description, w1))))"

text \<open>\<open>processor.extract(file_path)\<close>, by the class of the processor.\<close>

definition processor_extract :: "env \<Rightarrow> processor \<Rightarrow> path \<Rightarrow> world \<Rightarrow> (exc + json) \<times> world" where
  "processor_extract e proc file_path w =
     (let w0 = w\<lparr>extract_calls := extract_calls w @ [(proc, file_path)]\<rparr>
      in case proc of
           TextProcessor \<Rightarrow> (map_sum id JStr (text_extract e file_path), w0)
         | PDFProcessor \<Rightarrow> (map_sum id JStr (pdf_extract e file_path), w0)
         | ImageProcessor \<Rightarrow> image_extract e file_path w0)"

section \<open>downloader.py\<close>

definition download_folder :: "env \<Rightarrow> pystr \<Rightarrow> pystr option \<Rightarrow> exc + path list" where
  "download_folder e folder_url output_dir =
     (let dest = Path e (case output_dir of
                           None \<Rightarrow> DOWNLOAD_DIR e
                         | Some d \<Rightarrow> if d \<noteq> [] then d else DOWNLOAD_DIR e)
      in case mkdir e dest of
           Some x \<Rightarrow> Inl x
         | None \<Rightarrow>
             (case gdown_download_folder e folder_url (path_str dest) of
                Inl x \<Rightarrow> Inl x
              | Inr None \<Rightarrow> Inr []
              | Inr (Some downloaded) \<Rightarrow>
                  if downloaded = [] then Inr []
                  else Inr (sort_key path_parts (map (Path e) downloaded))))"

section \<open>summarizer.py\<close>

definition SYSTEM_PROMPT :: pystr where
  "SYSTEM_PROMPT = ascii
     (''You are an expert analyst. The user will give you descriptions / extracted ''
      @ ''content of several files from one folder. Produce a coherent, well-structured ''
      @ ''summary that covers ALL of the files. Highlight key themes, relationships ''
      @ ''between files, and any notable details. Answer in Russian.'')"

text \<open>The message returned when no file was downloaded.\<close>

definition FOLDER_EMPTY :: pystr where
  "FOLDER_EMPTY =
     [1055, 1072, 1087, 1082, 1072, 32, 1087, 1091, 1089, 1090, 1072, 32, 1080, 1083, 1080, 32,
      1092, 1072, 1081, 1083, 1099, 32, 1085, 1077, 32, 1091, 1076, 1072, 1083, 1086, 1089,
      1100, 32, 1089, 1082, 1072, 1095, 1072, 1090, 1100, 46]"

text \<open>The placeholder recorded for a file with no content.\<close>

definition EXTRACTION_FAILED :: pystr where
  "EXTRACTION_FAILED =
     [40, 1085, 1077, 32, 1091, 1076, 1072, 1083, 1086, 1089, 1100, 32, 1080, 1079, 1074, 1083,
      1077, 1095, 1100, 32, 1089, 1086, 1076, 1077, 1088, 1078, 1080, 1084, 1086, 1077, 41]"

text \<open>The message returned when every recorded value is the placeholder.\<close>

definition NOTHING_EXTRACTED :: pystr where
  "NOTHING_EXTRACTED =
     [1053, 1077, 32, 1091, 1076, 1072, 1083, 1086, 1089, 1100, 32, 1080, 1079, 1074, 1083,
      1077, 1095, 1100, 32, 1089, 1086, 1076, 1077, 1088, 1078, 1080, 1084, 1086, 1077, 32,
      1085, 1080, 32, 1080, 1079, 32, 1086, 1076, 1085, 1086, 1075, 1086, 32, 1092, 1072, 1081,
      1083, 1072, 46]"

text \<open>The marker appended to a truncated content, the header of a section, and the
  opening of the combined prompt.\<close>

definition TRUNCATION_MARKER :: pystr where
  "TRUNCATION_MARKER =
     [10, 46, 46, 46, 32, 40, 1089, 1086, 1076, 1077, 1088, 1078, 1080, 1084, 1086, 1077, 32,
      1086, 1073, 1088, 1077, 1079, 1072, 1085, 1086, 41]"

definition FILE_HEADER :: pystr where
  "FILE_HEADER =
     [35, 35, 35, 32, 1060, 1072, 1081, 1083, 58, 32]"

definition PROMPT_HEADER :: pystr where
  "PROMPT_HEADER =
     [1053, 1080, 1078, 1077, 32, 1087, 1088, 1080, 1074, 1077, 1076, 1077, 1085, 1086, 32,
      1089, 1086, 1076, 1077, 1088, 1078, 1080, 1084, 1086, 1077, 32, 47, 32, 1086, 1087, 1080,
      1089, 1072, 1085, 1080, 1077, 32, 1082, 1072, 1078, 1076, 1086, 1075, 1086, 32, 1092,
      1072, 1081, 1083, 1072, 32, 1080, 1079, 32, 1087, 1072, 1087, 1082, 1080, 46, 10, 1057,
      1076, 1077, 1083, 1072, 1081, 32, 1086, 1073, 1097, 1077, 1077, 32, 1087, 1086, 1076,
      1088, 1086, 1073, 1085, 1086, 1077, 32, 1089, 1072, 1084, 1084, 1072, 1088, 1080, 32,
      1087, 1086, 32, 1042, 1057, 1045, 1052, 32, 1092, 1072, 1081, 1083, 1072, 1084, 32, 1087,
      1072, 1087, 1082, 1080, 46, 10, 10]"

definition SEPARATOR :: pystr where
  "SEPARATOR = ascii [CHR 0x0A, CHR 0x0A, CHR ''-'', CHR ''-'', CHR ''-'', CHR 0x0A, CHR 0x0A]"

definition extract_file_content :: "env \<Rightarrow> path \<Rightarrow> world \<Rightarrow> json option \<times> world" where
  "extract_file_content e file_path w =
     (case get_processor e file_path w of
        None \<Rightarrow> (None, w)
      | Some proc \<Rightarrow>
          (case processor_extract e proc file_path w of
             (Inl x, w1) \<Rightarrow> (None, w1)
           | (Inr c, w1) \<Rightarrow> (Some c, w1)))"

text \<open>
  \<open>per_file[key] = value\<close> on a dict, which keeps its keys in insertion order: a key already
  there keeps its place and takes the new value, a new key goes to the end.
\<close>

fun dict_set :: "'k \<Rightarrow> 'v \<Rightarrow> ('k \<times> 'v) list \<Rightarrow> ('k \<times> 'v) list" where
  "dict_set k v [] = [(k, v)]"
| "dict_set k v ((k', v') # kvs) =
     (if k' = k then (k, v) # kvs else (k', v') # dict_set k v kvs)"

text \<open>The value recorded for a file: its content when that is truthy, else the placeholder.\<close>

definition recorded :: "json option \<Rightarrow> json" where
  "recorded c =
     (case c of None \<Rightarrow> JStr EXTRACTION_FAILED
      | Some v \<Rightarrow> if truthy v then v else JStr EXTRACTION_FAILED)"

text \<open>Step 2 of \<open>summarize_folder\<close>: the loop \<open>for f in files\<close>.\<close>

fun extract_files ::
  "env \<Rightarrow> path list \<Rightarrow> (pystr \<times> json) list \<Rightarrow> world \<Rightarrow> (pystr \<times> json) list \<times> world" where
  "extract_files e [] per_file w = (per_file, w)"
| "extract_files e (f # fs) per_file w =
     (case extract_file_content e f w of
        (c, w1) \<Rightarrow> extract_files e fs (dict_set (path_name f) (recorded c) per_file) w1)"

text \<open>
  \<open>content[:12_000]\<close> and \<open>truncated += marker\<close>: a string or a list can be sliced and
  extended, any other value raises.
\<close>

fun slice_12000 :: "json \<Rightarrow> exc + json" where
  "slice_12000 (JStr s) = Inr (JStr (take 12000 s))"
| "slice_12000 (JArr xs) = Inr (JArr (take 12000 xs))"
| "slice_12000 _ = Inl TypeError"

fun add_marker :: "json \<Rightarrow> exc + json" where
  "add_marker (JStr s) = Inr (JStr (s @ TRUNCATION_MARKER))"
| "add_marker (JArr xs) = Inr (JArr (xs @ map (\<lambda>c. JStr [c]) TRUNCATION_MARKER))"
| "add_marker _ = Inl TypeError"

text \<open>The body of the loop of step 3: the section of one file.\<close>

definition file_section :: "env \<Rightarrow> pystr \<Rightarrow> json \<Rightarrow> exc + pystr" where
  "file_section e nm c =
     (case slice_12000 c of
        Inl x \<Rightarrow> Inl x
      | Inr truncated \<Rightarrow>
          (case py_len c of
             Inl x \<Rightarrow> Inl x
           | Inr n \<Rightarrow>
               (case (if n > 12000 then add_marker truncated else Inr truncated) of
                  Inl x \<Rightarrow> Inl x
                | Inr truncated' \<Rightarrow>
                    Inr (FILE_HEADER @ nm @ [10, 10] @ fmt e truncated'))))"

fun build_parts :: "env \<Rightarrow> (pystr \<times> json) list \<Rightarrow> pystr list \<Rightarrow> exc + pystr list" where
  "build_parts e [] parts = Inr parts"
| "build_parts e ((nm, c) # rest) parts =
     (case file_section e nm c of
        Inl x \<Rightarrow> Inl x
      | Inr p \<Rightarrow> build_parts e rest (parts @ [p]))"

definition combined_prompt :: "pystr list \<Rightarrow> pystr" where
  "combined_prompt parts = PROMPT_HEADER @ join SEPARATOR parts"

definition summarize_folder ::
  "env \<Rightarrow> pystr \<Rightarrow> pystr option \<Rightarrow> world \<Rightarrow> (exc + json) \<times> world" where
  "summarize_folder e folder_url output_dir w =
     (case download_folder e folder_url output_dir of
        Inl x \<Rightarrow> (Inl x, w)
      | Inr files \<Rightarrow>
          if files = [] then (Inr (JStr FOLDER_EMPTY), w)
          else
            (case extract_files e files [] w of
               (per_file, w1) \<Rightarrow>
                 if \<not> list_ex (\<lambda>v. v \<noteq> JStr EXTRACTION_FAILED) (map snd per_file)
                 then (Inr (JStr NOTHING_EXTRACTED), w1)
                 else
                   (case build_parts e per_file [] of
                      Inl x \<Rightarrow> (Inl x, w1)
                    | Inr parts \<Rightarrow> chat e (combined_prompt parts) SYSTEM_PROMPT w1)))"

section \<open>Reference definitions and example inputs\<close>

text \<open>
  A list with its duplicates removed, in first-seen order: each element is kept where it
  first occurs and its later occurrences are dropped.
\<close>

fun first_seen :: "'a list \<Rightarrow> 'a list" where
  "first_seen [] = []"
| "first_seen (x # xs) = x # first_seen (filter (\<lambda>y. y \<noteq> x) xs)"

text \<open>
  An environment to run the functions in: primary model \<open>M0\<close> with the fallbacks
  \<open>M1, M0, M2\<close>, three attempts, a delay of 5.0 seconds, and collaborators that do nothing.
  The examples below change the fields they are about.
\<close>

definition example_env :: env where
  "example_env =
     \<lparr>OPENROUTER_API_KEY = ascii ''sk-or-v1-example'',
      TEXT_MODEL = ascii ''T0'',
      VISION_MODEL = ascii ''M0'',
      VISION_FALLBACK_MODELS = [ascii ''M1'', ascii ''M0'', ascii ''M2''],
      DOWNLOAD_DIR = ascii ''./downloads'',
      MAX_RETRIES = 3,
      RETRY_DELAY = Finite 5 0,
      requests_post = (\<lambda>k p. Inl (ExternalError (ascii ''connection refused''))),
      unicode_lower = (\<lambda>s. s),
      py_str = (\<lambda>v. ascii ''<value>''),
      Path = (\<lambda>s. \<lparr>path_parts = [s], path_name = s, path_suffix = [], path_str = s\<rparr>),
      mkdir = (\<lambda>p. None),
      gdown_download_folder = (\<lambda>url dest. Inr None),
      read_text = (\<lambda>p enc. Inl (ExternalError (ascii ''no such file''))),
      PdfReader = (\<lambda>p. Inl (ExternalError (ascii ''no such file''))),
      prepare_image = (\<lambda>p. Inl (ExternalError (ascii ''no such file''))),
      pysleep_error = (\<lambda>ns. None)\<rparr>"

definition example_world :: world where
  "example_world =
     \<lparr>posts = [], sleeps = [], chat_calls = [], extract_calls = [], EXTENSION_MAP = Map.empty\<rparr>"

text \<open>
  A body that carries an error payload instead of a non-empty reply: a JSON object with no
  \<open>choices\<close>, or with \<open>choices\<close> that hold no non-empty content (an empty value, or a list
  whose first choice has no message or a message without non-empty content), and with an
  \<open>error\<close> object whose \<open>message\<close> is not empty.
\<close>

fun message_without_content :: "json \<Rightarrow> bool" where
  "message_without_content (JObj m) =
     (case map_of m (ascii ''content'') of None \<Rightarrow> True | Some v \<Rightarrow> \<not> truthy v)"
| "message_without_content other = False"

fun choice_without_content :: "json \<Rightarrow> bool" where
  "choice_without_content (JObj c) =
     (case map_of c (ascii ''message'') of None \<Rightarrow> True | Some m \<Rightarrow> message_without_content m)"
| "choice_without_content other = False"

fun choices_without_reply :: "json \<Rightarrow> bool" where
  "choices_without_reply (JArr (c # rest)) = choice_without_content c"
| "choices_without_reply ch = (\<not> truthy ch)"

definition no_reply :: "(pystr \<times> json) list \<Rightarrow> bool" where
  "no_reply kvs =
     (case map_of kvs (ascii ''choices'') of None \<Rightarrow> True | Some ch \<Rightarrow> choices_without_reply ch)"

definition has_error_message :: "(pystr \<times> json) list \<Rightarrow> bool" where
  "has_error_message kvs =
     (case map_of kvs (ascii ''error'') of
        Some (JObj err) \<Rightarrow>
          (case map_of err (ascii ''message'') of None \<Rightarrow> False | Some msg \<Rightarrow> truthy msg)
      | _ \<Rightarrow> False)"

definition carries_error_payload :: "response \<Rightarrow> bool" where
  "carries_error_payload r =
     (status_code r = 200 \<and>
      (case body_json r of
         Inr (JObj kvs) \<Rightarrow> no_reply kvs \<and> has_error_message kvs
       | _ \<Rightarrow> False))"

text \<open>Example responses: an error inside a 200 body, a rate limit, a block by the provider.\<close>

definition error_in_200 :: response where
  "error_in_200 =
     \<lparr>status_code = 200,
      body_text = ascii ''{error: {message: overloaded}}'',
      body_json = Inr (JObj [(ascii ''error'', JObj [(ascii ''message'', JStr (ascii ''overloaded''))])])\<rparr>"



definition example_payload :: payload where
  "example_payload =
     \<lparr>model = ascii ''T0'', messages = [\<lparr>role = ascii ''user'', content = Text (ascii ''hello'')\<rparr>]\<rparr>"



text \<open>
  What \<open>_extract_file_content\<close> returns for each file of a list, in order, each call
  starting in the world the one before it left, and the world after the last call.
\<close>

fun extraction_results :: "env \<Rightarrow> path list \<Rightarrow> world \<Rightarrow> json option list \<times> world" where
  "extraction_results e [] w = ([], w)"
| "extraction_results e (f # fs) w =
     (let r = extract_file_content e f w;
          rs = extraction_results e fs (snd r)
      in (fst r # fst rs, snd rs))"

text \<open>The dict a list of assignments \<open>per_file[key] = value\<close> builds from a given one.\<close>

fun assign_all :: "('k \<times> 'v) list \<Rightarrow> ('k \<times> 'v) list \<Rightarrow> ('k \<times> 'v) list" where
  "assign_all d [] = d"
| "assign_all d ((k, v) # kvs) = assign_all (dict_set k v d) kvs"

text \<open>The section of a file whose content is the string \<open>s\<close>, as the claim on truncation
  states it.\<close>

definition text_section :: "pystr \<Rightarrow> pystr \<Rightarrow> pystr" where
  "text_section nm s =
     FILE_HEADER @ nm @ [10, 10]
     @ (if length s > 12000 then take 12000 s @ TRUNCATION_MARKER else s)"

text \<open>
  Example files. The example \<open>Path\<close> takes what follows the last slash of the string as
  the name, and what follows the last dot of the name, with that dot, as the suffix.
\<close>

definition after_last :: "nat \<Rightarrow> pystr \<Rightarrow> pystr" where
  "after_last c s = rev (takeWhile (\<lambda>x. x \<noteq> c) (rev s))"

definition example_path :: "pystr \<Rightarrow> path" where
  "example_path s =
     \<lparr>path_parts = [s],
      path_name = after_last 47 s,
      path_suffix = (if 46 \<in> set (after_last 47 s)
                     then 46 # after_last 46 (after_last 47 s) else []),
      path_str = s\<rparr>"

text \<open>
  An environment whose folder holds the given files, read by the given \<open>read_text\<close>, and
  the world after the imports of \<open>summarizer.py\<close>.
\<close>

definition folder_env :: "pystr list \<Rightarrow> (path \<Rightarrow> pystr \<Rightarrow> exc + pystr) \<Rightarrow> env" where
  "folder_env downloaded reader =
     example_env\<lparr>Path := example_path,
       gdown_download_folder := (\<lambda>url dest. Inr (Some downloaded)),
       read_text := reader\<rparr>"

definition example_url :: pystr where
  "example_url = ascii ''https://drive.google.com/drive/folders/x''"

definition loaded_world :: world where
  "loaded_world = register_all example_env import_registrations example_world"




section \<open>The candidate models of describe\_image\<close>

lemma filter_drop_excluded: "\<not> P x \<Longrightarrow> filter (\<lambda>y. y \<noteq> x \<and> P y) xs = filter P xs"
  by (induction xs) auto

lemma first_seen_filter: "first_seen (filter P xs) = filter P (first_seen xs)"
proof (induction xs rule: first_seen.induct)
  case 1
  show ?case by simp
next
  case (2 x xs)
  show ?case
  proof (cases "P x")
    case True
    with 2 show ?thesis by (simp add: conj_commute)
  next
    case False
    with 2 show ?thesis by (simp add: filter_drop_excluded)
  qed
qed

lemma set_first_seen: "set (first_seen xs) = set xs"
  by (induction xs rule: first_seen.induct) auto

lemma distinct_first_seen: "distinct (first_seen xs)"
  by (induction xs rule: first_seen.induct) (auto simp: set_first_seen)

lemma add_fallbacks_first_seen:
  "add_fallbacks acc fbs = acc @ filter (\<lambda>x. x \<notin> set acc) (first_seen fbs)"
proof (induction fbs arbitrary: acc)
  case Nil
  show ?case by simp
next
  case (Cons fb fbs)
  show ?case
  proof (cases "fb \<in> set acc")
    case True
    with Cons show ?thesis by (simp add: first_seen_filter filter_drop_excluded)
  next
    case False
    with Cons show ?thesis by (simp add: first_seen_filter conj_commute)
  qed
qed

text \<open>
  C1. The candidate list of \<open>describe_image\<close> is the primary model followed by the fallbacks,
  with duplicates removed in first-seen order. So it has no duplicates, it starts with the
  primary model, its members are the primary model and the fallbacks, and for the primary
  \<open>M0\<close> with the fallbacks \<open>M1, M0, M2\<close> it is \<open>M0, M1, M2\<close>.
\<close>

theorem candidate_models_first_seen:
  "models_to_try e = first_seen (VISION_MODEL e # VISION_FALLBACK_MODELS e)
   \<and> distinct (models_to_try e)
   \<and> (\<exists>rest. models_to_try e = VISION_MODEL e # rest)
   \<and> set (models_to_try e) = insert (VISION_MODEL e) (set (VISION_FALLBACK_MODELS e))
   \<and> models_to_try (e\<lparr>VISION_MODEL := ascii ''M0'',
          VISION_FALLBACK_MODELS := [ascii ''M1'', ascii ''M0'', ascii ''M2'']\<rparr>)
       = [ascii ''M0'', ascii ''M1'', ascii ''M2'']"
proof -
  have eq: "models_to_try e = first_seen (VISION_MODEL e # VISION_FALLBACK_MODELS e)" for e
    by (simp add: models_to_try_def add_fallbacks_first_seen first_seen_filter)
  have d: "distinct (models_to_try e)"
    unfolding eq by (rule distinct_first_seen)
  have s: "set (models_to_try e) = insert (VISION_MODEL e) (set (VISION_FALLBACK_MODELS e))"
    unfolding eq by (simp only: set_first_seen list.set)
  have h: "\<exists>rest. models_to_try e = VISION_MODEL e # rest"
    unfolding eq by simp
  have ex: "models_to_try (e\<lparr>VISION_MODEL := ascii ''M0'',
          VISION_FALLBACK_MODELS := [ascii ''M1'', ascii ''M0'', ascii ''M2'']\<rparr>)
       = [ascii ''M0'', ascii ''M1'', ascii ''M2'']"
    by (simp add: models_to_try_def ascii_def)
  from eq d s h ex show ?thesis by blast
qed

theorem candidate_models_first_seen_witness:
  "models_to_try example_env = [ascii ''M0'', ascii ''M1'', ascii ''M2'']
   \<and> distinct (models_to_try example_env)"
  using candidate_models_first_seen [of example_env]
  by (simp add: example_env_def ascii_def)

section \<open>The retry loop\<close>

lemma message_without_content_get:
  "message_without_content m \<Longrightarrow> \<exists>v. py_get m (ascii ''content'') JNull = Inr v \<and> \<not> truthy v"
  by (cases m) (auto split: option.splits)

lemma choice_without_content_get:
  assumes "choice_without_content c"
  shows "\<exists>v. first_choice_content (JArr (c # rest)) = Inr v \<and> \<not> truthy v"
proof (cases c)
  case (JObj kvs)
  show ?thesis
  proof (cases "map_of kvs (ascii ''message'')")
    case None
    with JObj show ?thesis by (simp add: first_choice_content_def)
  next
    case (Some m)
    with JObj assms have "message_without_content m" by simp
    from message_without_content_get [OF this] JObj Some show ?thesis
      by (simp add: first_choice_content_def)
  qed
qed (use assms in simp_all)

lemma choices_without_reply_branch:
  assumes "choices_without_reply ch"
  shows "\<not> truthy ch \<or> (\<exists>v. first_choice_content ch = Inr v \<and> \<not> truthy v)"
proof (cases "truthy ch")
  case False
  then show ?thesis by simp
next
  case True
  with assms obtain c rest where "ch = JArr (c # rest)" "choice_without_content c"
    by (cases ch rule: choices_without_reply.cases) auto
  with choice_without_content_get show ?thesis by blast
qed

lemma has_error_message_get:
  "has_error_message kvs \<Longrightarrow> \<exists>msg. error_message (JObj kvs) = Inr msg \<and> truthy msg"
  by (auto simp: has_error_message_def error_message_def split: option.splits json.splits)

lemma error_payload_falls_through:
  assumes "carries_error_payload r"
  shows "status_code r = 200 \<and> (\<exists>msg. status_200_branch r = FallsThrough msg \<and> truthy msg)"
proof -
  from assms have s: "status_code r = 200" by (simp add: carries_error_payload_def)
  from assms obtain kvs where b: "body_json r = Inr (JObj kvs)" and n: "no_reply kvs"
    and h: "has_error_message kvs"
    by (auto simp: carries_error_payload_def split: sum.splits json.splits)
  from has_error_message_get [OF h] obtain msg
    where m: "error_message (JObj kvs) = Inr msg" "truthy msg" by blast
  have "status_200_branch r = FallsThrough msg"
  proof (cases "map_of kvs (ascii ''choices'')")
    case None
    with b m show ?thesis by (simp add: status_200_branch_def)
  next
    case (Some ch)
    with n have "choices_without_reply ch" by (simp add: no_reply_def)
    from choices_without_reply_branch [OF this] b m Some show ?thesis
      by (auto simp: status_200_branch_def)
  qed
  with s m show ?thesis by blast
qed

lemma fall_through_step:
  assumes "requests_post e (length (posts w)) p = Inr r"
    and "status_code r = 200" and "status_200_branch r = FallsThrough msg"
  shows "request_attempts e p (attempt # rest) last_resp w
         = request_attempts e p rest (Some r) (w\<lparr>posts := posts w @ [p]\<rparr>)"
  using assms by (simp add: post_def raise_for_status_def)

lemma error_payload_step:
  assumes "requests_post e (length (posts w)) p = Inr r" and "carries_error_payload r"
  shows "request_attempts e p (attempt # rest) last_resp w
         = request_attempts e p rest (Some r) (w\<lparr>posts := posts w @ [p]\<rparr>)"
  using error_payload_falls_through [OF assms(2)] fall_through_step [OF assms(1)] by blast

lemma replicate_snoc_front: "[x] @ replicate n x = replicate (Suc n) x"
  by simp

lemma error_payload_run:
  assumes "\<forall>k. requests_post e k p = Inr (resp k) \<and> carries_error_payload (resp k)"
  shows "request_attempts e p attempts last_resp w
         = (Inl (RuntimeError (exhausted_message e
               (if attempts = [] then last_resp
                else Some (resp (length (posts w) + length attempts - 1))))),
            w\<lparr>posts := posts w @ replicate (length attempts) p\<rparr>)"
proof (induction attempts arbitrary: last_resp w)
  case Nil
  show ?case by simp
next
  case (Cons attempt rest)
  from assms have r: "requests_post e (length (posts w)) p = Inr (resp (length (posts w)))"
    and c: "carries_error_payload (resp (length (posts w)))" by simp_all
  show ?case
    unfolding error_payload_step [OF r c] Cons.IH
    by (cases rest) (simp_all add: replicate_append_same)
qed

lemma length_attempts: "length [1 .. m] = nat m"
  by simp

text \<open>
  C3. A 200 response whose body carries an error payload instead of a non-empty reply
  neither returns nor fails: the attempt is used up and the loop goes on to the next one.
  If every response is such a response, the call fails with the retries-exhausted error
  after exactly \<open>MAX_RETRIES\<close> requests (none when \<open>MAX_RETRIES\<close> is not positive), and it
  never sleeps.
\<close>

theorem error_in_200_body_uses_an_attempt:
  "(requests_post e (length (posts w)) p = Inr r \<and> carries_error_payload r \<longrightarrow>
      request_attempts e p (attempt # rest) last_resp w
      = request_attempts e p rest (Some r) (w\<lparr>posts := posts w @ [p]\<rparr>))
   \<and> ((\<forall>k. requests_post e k p = Inr (resp k) \<and> carries_error_payload (resp k)) \<longrightarrow>
      request_with_retry e p w
      = (Inl (RuntimeError (exhausted_message e
            (if MAX_RETRIES e < 1 then None
             else Some (resp (length (posts w) + nat (MAX_RETRIES e) - 1))))),
         w\<lparr>posts := posts w @ replicate (nat (MAX_RETRIES e)) p\<rparr>))"
proof (intro conjI impI)
  assume "requests_post e (length (posts w)) p = Inr r \<and> carries_error_payload r"
  then show "request_attempts e p (attempt # rest) last_resp w
      = request_attempts e p rest (Some r) (w\<lparr>posts := posts w @ [p]\<rparr>)"
    using error_payload_step by blast
next
  assume a: "\<forall>k. requests_post e k p = Inr (resp k) \<and> carries_error_payload (resp k)"
  have "([1 .. MAX_RETRIES e] = []) = (MAX_RETRIES e < 1)"
    by simp
  then show "request_with_retry e p w
      = (Inl (RuntimeError (exhausted_message e
            (if MAX_RETRIES e < 1 then None
             else Some (resp (length (posts w) + nat (MAX_RETRIES e) - 1))))),
         w\<lparr>posts := posts w @ replicate (nat (MAX_RETRIES e)) p\<rparr>)"
    unfolding request_with_retry_def error_payload_run [OF a] by simp
qed

theorem error_in_200_body_uses_an_attempt_witness:
  "carries_error_payload error_in_200
   \<and> request_with_retry (example_env\<lparr>requests_post := (\<lambda>k p. Inr error_in_200)\<rparr>)
        example_payload example_world
      = (Inl (RuntimeError (exhausted_message (example_env\<lparr>requests_post := (\<lambda>k p. Inr error_in_200)\<rparr>)
                 (Some error_in_200))),
         example_world\<lparr>posts := [example_payload, example_payload, example_payload]\<rparr>)"
proof -
  have c: "carries_error_payload error_in_200"
    by (simp add: carries_error_payload_def error_in_200_def no_reply_def has_error_message_def
        ascii_def)
  show ?thesis
    using c error_in_200_body_uses_an_attempt
      [of "example_env\<lparr>requests_post := (\<lambda>k p. Inr error_in_200)\<rparr>" example_world
          example_payload error_in_200 0 "[]" None "\<lambda>k. error_in_200"]
    by (simp add: example_env_def example_world_def numeral_3_eq_3)
qed

subsection \<open>The backoff\<close>
















section \<open>The fallback over the vision models\<close>











section \<open>The registry\<close>

lemma lower_ascii:
  "list_all (\<lambda>c. c < 128) s \<Longrightarrow> lower e s = map ascii_lower s"
  by (simp add: lower_def)

lemma ascii_lower_below: "ascii_lower c < 128 \<longleftrightarrow> c < 128"
  by (auto simp: ascii_lower_def)

lemma case_variant_lower:
  assumes "list_all (\<lambda>c. c < 128) s" and "map ascii_lower t = map ascii_lower s"
  shows "lower e t = lower e s"
proof -
  from assms(1) have "list_all (\<lambda>c. c < 128) (map ascii_lower s)"
    by (simp add: list_all_iff ascii_lower_below)
  with assms(2) have "list_all (\<lambda>c. c < 128) (map ascii_lower t)" by simp
  then have "list_all (\<lambda>c. c < 128) t"
    by (simp add: list_all_iff ascii_lower_below)
  with assms show ?thesis by (simp add: lower_ascii)
qed

lemma get_after_register:
  "get_processor e f (register_processor e extension cls w)
   = (if lower e (path_suffix f) = lower e extension then Some cls else get_processor e f w)"
  by (simp add: get_processor_def register_processor_def split: option.splits)

lemma find_snoc:
  "find P (xs @ [x]) = (case find P xs of Some y \<Rightarrow> Some y | None \<Rightarrow> if P x then Some x else None)"
  by (induction xs) auto

lemma get_after_register_all:
  "get_processor e f (register_all e regs w)
   = (case find (\<lambda>x. lower e (fst x) = lower e (path_suffix f)) (rev regs) of
        Some x \<Rightarrow> Some (snd x)
      | None \<Rightarrow> get_processor e f w)"
proof (induction regs arbitrary: w)
  case Nil
  show ?case by simp
next
  case (Cons r regs)
  obtain x c where r: "r = (x, c)" by (cases r)
  show ?case
    unfolding r register_all.simps Cons.IH
    by (auto simp: get_after_register find_snoc split: option.splits)
qed

text \<open>
  C8. Resolving a processor is case-insensitive on the extension of the file: after
  \<open>register_processor extension cls\<close>, \<open>get_processor\<close> returns \<open>cls\<close> for every file whose
  suffix has the lowercase form of \<open>extension\<close>, in particular for every case variant of an
  ASCII extension; files with the suffixes \<open>.PDF\<close> and \<open>.pdf\<close> resolve alike in every
  registry. After any sequence of registrations the last one for the extension wins, and a
  suffix that none of them has registered resolves to \<open>None\<close>, not to an error.
\<close>

theorem registry_is_case_insensitive:
  "(lower e (path_suffix f) = lower e extension \<longrightarrow>
      get_processor e f (register_processor e extension cls w) = Some cls)
   \<and> (list_all (\<lambda>c. c < 128) extension
      \<and> map ascii_lower (path_suffix f) = map ascii_lower extension \<longrightarrow>
      get_processor e f (register_processor e extension cls w) = Some cls)
   \<and> (path_suffix f = ascii ''.PDF'' \<and> path_suffix g = ascii ''.pdf'' \<longrightarrow>
      get_processor e f w = get_processor e g w)
   \<and> get_processor e f (register_all e regs w)
     = (case find (\<lambda>x. lower e (fst x) = lower e (path_suffix f)) (rev regs) of
          Some x \<Rightarrow> Some (snd x)
        | None \<Rightarrow> get_processor e f w)
   \<and> (EXTENSION_MAP w = Map.empty
      \<and> list_all (\<lambda>x. lower e (fst x) \<noteq> lower e (path_suffix f)) regs \<longrightarrow>
      get_processor e f (register_all e regs w) = None)"
proof (intro conjI impI)
  assume "lower e (path_suffix f) = lower e extension"
  then show "get_processor e f (register_processor e extension cls w) = Some cls"
    by (simp add: get_after_register)
next
  assume "list_all (\<lambda>c. c < 128) extension
      \<and> map ascii_lower (path_suffix f) = map ascii_lower extension"
  then have "lower e (path_suffix f) = lower e extension"
    using case_variant_lower by blast
  then show "get_processor e f (register_processor e extension cls w) = Some cls"
    by (simp add: get_after_register)
next
  assume "path_suffix f = ascii ''.PDF'' \<and> path_suffix g = ascii ''.pdf''"
  then have "lower e (path_suffix f) = lower e (path_suffix g)"
    by (simp add: lower_def ascii_def ascii_lower_def)
  then show "get_processor e f w = get_processor e g w"
    by (simp add: get_processor_def)
next
  show "get_processor e f (register_all e regs w)
     = (case find (\<lambda>x. lower e (fst x) = lower e (path_suffix f)) (rev regs) of
          Some x \<Rightarrow> Some (snd x)
        | None \<Rightarrow> get_processor e f w)"
    by (rule get_after_register_all)
next
  assume a: "EXTENSION_MAP w = Map.empty
      \<and> list_all (\<lambda>x. lower e (fst x) \<noteq> lower e (path_suffix f)) regs"
  then have "find (\<lambda>x. lower e (fst x) = lower e (path_suffix f)) (rev regs) = None"
    by (auto simp: find_None_iff list_all_iff)
  with a show "get_processor e f (register_all e regs w) = None"
    unfolding get_after_register_all by (simp add: get_processor_def)
qed

lemma loaded_map:
  "EXTENSION_MAP loaded_world (ascii ''.pdf'') = Some PDFProcessor"
  "EXTENSION_MAP loaded_world (ascii ''.txt'') = Some TextProcessor"
  "EXTENSION_MAP loaded_world (ascii ''.xyz'') = None"
  by (simp_all add: loaded_world_def import_registrations_def register_processor_def
      example_world_def lower_def ascii_lower_def ascii_def)

theorem registry_is_case_insensitive_witness:
  "get_processor example_env (example_path (ascii ''scan.PDF'')) loaded_world = Some PDFProcessor
   \<and> get_processor example_env (example_path (ascii ''scan.pdf'')) loaded_world = Some PDFProcessor
   \<and> get_processor example_env (example_path (ascii ''notes.xyz'')) loaded_world = None
   \<and> get_processor example_env (example_path (ascii ''scan.PDF''))
        (register_processor example_env (ascii ''.Pdf'') TextProcessor loaded_world)
      = Some TextProcessor"
proof -
  have s: "path_suffix (example_path (ascii ''scan.PDF'')) = ascii ''.PDF''"
    "path_suffix (example_path (ascii ''scan.pdf'')) = ascii ''.pdf''"
    "path_suffix (example_path (ascii ''notes.xyz'')) = ascii ''.xyz''"
    by (simp_all add: example_path_def after_last_def ascii_def)
  have l: "lower example_env (ascii ''.PDF'') = ascii ''.pdf''"
    "lower example_env (ascii ''.Pdf'') = ascii ''.pdf''"
    "lower example_env (ascii ''.pdf'') = ascii ''.pdf''"
    "lower example_env (ascii ''.xyz'') = ascii ''.xyz''"
    by (simp_all add: lower_def ascii_def ascii_lower_def)
  show ?thesis
    using registry_is_case_insensitive
      [of example_env "example_path (ascii ''scan.PDF'')" "ascii ''.Pdf''" TextProcessor
          loaded_world "example_path (ascii ''scan.pdf'')" "[]"]
    by (simp add: s l get_processor_def loaded_map)
qed

section \<open>The orchestrator\<close>

subsection \<open>Only chat records a chat call\<close>

lemma request_attempts_chat_calls:
  "chat_calls (snd (request_attempts e p attempts last_resp w)) = chat_calls w"
proof (induction attempts arbitrary: last_resp w)
  case Nil
  show ?case by simp
next
  case (Cons attempt rest)
  show ?case
    by (auto simp: post_def time_sleep_def Cons.IH
        split: sum.splits branch200.splits option.splits prod.splits)
qed

lemma request_with_retry_chat_calls:
  "chat_calls (snd (request_with_retry e p w)) = chat_calls w"
  by (simp add: request_with_retry_def request_attempts_chat_calls)

lemma try_models_chat_calls:
  "chat_calls (snd (try_models e msgs ms last_error w)) = chat_calls w"
proof (induction ms arbitrary: last_error w)
  case Nil
  show ?case by simp
next
  case (Cons m ms)
  obtain res w1 where r: "request_with_retry e \<lparr>model = m, messages = msgs\<rparr> w = (res, w1)"
    by (cases "request_with_retry e \<lparr>model = m, messages = msgs\<rparr> w")
  with request_with_retry_chat_calls [of e "\<lparr>model = m, messages = msgs\<rparr>" w]
  have w1: "chat_calls w1 = chat_calls w" by simp
  show ?case
  proof (cases res)
    case (Inr reply)
    with r w1 show ?thesis by (simp split: sum.splits)
  next
    case (Inl x)
    with r w1 show ?thesis by (cases x) (simp_all add: Cons.IH)
  qed
qed

lemma extract_file_content_chat_calls:
  "chat_calls (snd (extract_file_content e f w)) = chat_calls w"
proof -
  have d: "chat_calls (snd (describe_image e u q v)) = chat_calls v" for u q v
    by (simp add: describe_image_def try_models_chat_calls)
  have i: "chat_calls (snd (image_extract e f v)) = chat_calls v" for v
  proof (cases "prepare_image e f")
    case (Inl x)
    then show ?thesis by (simp add: image_extract_def)
  next
    case (Inr u)
    with d [of u IMAGE_PROMPT v] show ?thesis
      by (auto simp: image_extract_def split: prod.splits sum.splits)
  qed
  have p: "chat_calls (snd (processor_extract e proc f v)) = chat_calls v" for proc v
    by (cases proc) (simp_all add: processor_extract_def i)
  show ?thesis
  proof (cases "get_processor e f w")
    case None
    then show ?thesis by (simp add: extract_file_content_def)
  next
    case (Some proc)
    with p [of proc w] show ?thesis
      by (auto simp: extract_file_content_def split: prod.splits sum.splits)
  qed
qed

lemma extraction_results_chat_calls:
  "chat_calls (snd (extraction_results e fs w)) = chat_calls w"
proof (induction fs arbitrary: w)
  case Nil
  show ?case by simp
next
  case (Cons f fs)
  show ?case by (simp add: Let_def Cons.IH extract_file_content_chat_calls)
qed

lemma extraction_results_length: "length (fst (extraction_results e fs w)) = length fs"
  by (induction fs arbitrary: w) (simp_all add: Let_def)

subsection \<open>The loop over the files and the dict it builds\<close>

lemma extract_files_assign_all:
  "extract_files e fs d w
   = (assign_all d (zip (map path_name fs) (map recorded (fst (extraction_results e fs w)))),
      snd (extraction_results e fs w))"
proof (induction fs arbitrary: d w)
  case Nil
  show ?case by simp
next
  case (Cons f fs)
  show ?case by (simp add: Cons.IH Let_def split: prod.splits)
qed

lemma dict_set_member: "x \<in> set (dict_set k v d) \<Longrightarrow> x = (k, v) \<or> x \<in> set d"
  by (induction d) (auto split: if_splits)

lemma dict_set_values: "set (map snd (dict_set k v d)) \<subseteq> insert v (set (map snd d))"
  using dict_set_member [of _ k v d] by fastforce

lemma assign_all_values:
  "set (map snd (assign_all d kvs)) \<subseteq> set (map snd d) \<union> set (map snd kvs)"
proof (induction kvs arbitrary: d)
  case Nil
  show ?case by simp
next
  case (Cons kv kvs)
  obtain k v where kv: "kv = (k, v)" by (cases kv)
  from Cons.IH [of "dict_set k v d"] dict_set_values [of k v d] show ?case
    unfolding kv by auto
qed

lemma nothing_extracted:
  assumes "download_folder e folder_url output_dir = Inr fs" and "fs \<noteq> []"
    and "list_all (\<lambda>c. recorded c = JStr EXTRACTION_FAILED) (fst (extraction_results e fs w))"
  shows "summarize_folder e folder_url output_dir w
         = (Inr (JStr NOTHING_EXTRACTED), snd (extraction_results e fs w))"
proof -
  let ?cs = "fst (extraction_results e fs w)"
  let ?d = "assign_all [] (zip (map path_name fs) (map recorded ?cs))"
  from assms(3) have "set (map recorded ?cs) \<subseteq> {JStr EXTRACTION_FAILED}"
    by (auto simp: list_all_iff)
  moreover have "set (map snd (zip (map path_name fs) (map recorded ?cs))) \<subseteq> set (map recorded ?cs)"
    by (auto dest: set_zip_rightD)
  ultimately have "set (map snd ?d) \<subseteq> {JStr EXTRACTION_FAILED}"
    using assign_all_values [of "[]" "zip (map path_name fs) (map recorded ?cs)"] by auto
  then have "\<not> list_ex (\<lambda>v. v \<noteq> JStr EXTRACTION_FAILED) (map snd ?d)"
    by (auto simp: list_ex_iff)
  with assms(1,2) show ?thesis
    by (simp add: summarize_folder_def extract_files_assign_all)
qed

subsection \<open>The example folders\<close>

lemma lower_ascii_examples:
  "lower e (ascii ''.txt'') = ascii ''.txt''"
  "lower e (ascii ''.xyz'') = ascii ''.xyz''"
  by (simp_all add: lower_def ascii_def ascii_lower_def)

lemma example_paths:
  "path_suffix (example_path (ascii ''a.txt'')) = ascii ''.txt''"
  "path_suffix (example_path (ascii ''b.xyz'')) = ascii ''.xyz''"
  "path_name (example_path (ascii ''a.txt'')) = ascii ''a.txt''"
  "path_name (example_path (ascii ''b.xyz'')) = ascii ''b.xyz''"
  "path_suffix (example_path (ascii ''x/a.txt'')) = ascii ''.txt''"
  "path_suffix (example_path (ascii ''x/b.txt'')) = ascii ''.txt''"
  "path_suffix (example_path (ascii ''y/a.txt'')) = ascii ''.txt''"
  "path_name (example_path (ascii ''x/a.txt'')) = ascii ''a.txt''"
  "path_name (example_path (ascii ''x/b.txt'')) = ascii ''b.txt''"
  "path_name (example_path (ascii ''y/a.txt'')) = ascii ''a.txt''"
  by (simp_all add: example_path_def after_last_def ascii_def)

lemma example_processors:
  "get_processor e (example_path (ascii ''a.txt'')) (loaded_world\<lparr>extract_calls := xs\<rparr>) = Some TextProcessor"
  "get_processor e (example_path (ascii ''b.xyz'')) (loaded_world\<lparr>extract_calls := xs\<rparr>) = None"
  "get_processor e (example_path (ascii ''x/a.txt'')) (loaded_world\<lparr>extract_calls := xs\<rparr>) = Some TextProcessor"
  "get_processor e (example_path (ascii ''x/b.txt'')) (loaded_world\<lparr>extract_calls := xs\<rparr>) = Some TextProcessor"
  "get_processor e (example_path (ascii ''y/a.txt'')) (loaded_world\<lparr>extract_calls := xs\<rparr>) = Some TextProcessor"
  by (simp_all add: get_processor_def example_paths lower_ascii_examples loaded_map)

lemma loaded_calls: "extract_calls loaded_world = []" "chat_calls loaded_world = []"
  by (simp_all add: loaded_world_def import_registrations_def register_processor_def
      example_world_def)

lemma loaded_world_id: "loaded_world\<lparr>extract_calls := []\<rparr> = loaded_world"
  using loaded_calls(1) by (metis world.surjective world.update_convs(4))

lemma folder_env_fields:
  "Path (folder_env ds rd) = example_path"
  "mkdir (folder_env ds rd) = (\<lambda>p. None)"
  "gdown_download_folder (folder_env ds rd) = (\<lambda>url dest. Inr (Some ds))"
  "read_text (folder_env ds rd) = rd"
  "DOWNLOAD_DIR (folder_env ds rd) = ascii ''./downloads''"
  by (simp_all add: folder_env_def example_env_def)

lemma download_two:
  "download_folder (folder_env [ascii ''b.xyz'', ascii ''a.txt''] rd) example_url None
   = Inr [example_path (ascii ''a.txt''), example_path (ascii ''b.xyz'')]"
  by (simp add: download_folder_def folder_env_fields example_path_def ascii_def)

text \<open>
  C5. When the downloader returns no file, \<open>summarize_folder\<close> returns the folder-empty
  message and leaves the world as it was: no processor is run, \<open>chat\<close> is not called and no
  request is sent. The downloader returns no file when the download gives \<open>None\<close> or an
  empty list.
\<close>

theorem empty_folder_message:
  "(download_folder e folder_url output_dir = Inr [] \<longrightarrow>
      summarize_folder e folder_url output_dir w = (Inr (JStr FOLDER_EMPTY), w)
      \<and> extract_calls (snd (summarize_folder e folder_url output_dir w)) = extract_calls w
      \<and> chat_calls (snd (summarize_folder e folder_url output_dir w)) = chat_calls w
      \<and> posts (snd (summarize_folder e folder_url output_dir w)) = posts w)
   \<and> (mkdir e (Path e (DOWNLOAD_DIR e)) = None
      \<and> (gdown_download_folder e folder_url (path_str (Path e (DOWNLOAD_DIR e))) = Inr None
         \<or> gdown_download_folder e folder_url (path_str (Path e (DOWNLOAD_DIR e))) = Inr (Some [])) \<longrightarrow>
      download_folder e folder_url None = Inr [])"
  by (auto simp: summarize_folder_def download_folder_def)

theorem empty_folder_message_witness:
  "download_folder example_env (ascii ''https://drive.google.com/drive/folders/x'') None = Inr []
   \<and> summarize_folder example_env (ascii ''https://drive.google.com/drive/folders/x'') None
        loaded_world
      = (Inr (JStr FOLDER_EMPTY), loaded_world)"
proof -
  have d: "download_folder example_env (ascii ''https://drive.google.com/drive/folders/x'') None
      = Inr []"
    by (simp add: download_folder_def example_env_def)
  with empty_folder_message
      [of example_env "ascii ''https://drive.google.com/drive/folders/x''" None loaded_world]
  show ?thesis by simp
qed

text \<open>
  C6. When the downloader returns a non-empty list of files and the extraction of every one
  of them fails (there is no processor for it, or its processor raises), so that the value
  recorded for each file is the placeholder, \<open>summarize_folder\<close> returns the
  nothing-extracted message and \<open>chat\<close> is not called. The same holds whenever every recorded
  value is the placeholder.
\<close>

theorem nothing_extracted_message:
  "(download_folder e folder_url output_dir = Inr fs \<and> fs \<noteq> []
      \<and> list_all (\<lambda>c. c = None) (fst (extraction_results e fs w)) \<longrightarrow>
      summarize_folder e folder_url output_dir w
      = (Inr (JStr NOTHING_EXTRACTED), snd (extraction_results e fs w))
      \<and> chat_calls (snd (summarize_folder e folder_url output_dir w)) = chat_calls w)
   \<and> (download_folder e folder_url output_dir = Inr fs \<and> fs \<noteq> []
      \<and> list_all (\<lambda>c. recorded c = JStr EXTRACTION_FAILED) (fst (extraction_results e fs w)) \<longrightarrow>
      summarize_folder e folder_url output_dir w
      = (Inr (JStr NOTHING_EXTRACTED), snd (extraction_results e fs w))
      \<and> chat_calls (snd (summarize_folder e folder_url output_dir w)) = chat_calls w)"
proof -
  have g: "summarize_folder e folder_url output_dir w
      = (Inr (JStr NOTHING_EXTRACTED), snd (extraction_results e fs w))
      \<and> chat_calls (snd (summarize_folder e folder_url output_dir w)) = chat_calls w"
    if "download_folder e folder_url output_dir = Inr fs" "fs \<noteq> []"
      "list_all (\<lambda>c. recorded c = JStr EXTRACTION_FAILED) (fst (extraction_results e fs w))"
    using nothing_extracted [OF that] by (simp add: extraction_results_chat_calls)
  have n: "list_all (\<lambda>c. recorded c = JStr EXTRACTION_FAILED) cs"
    if "list_all (\<lambda>c. c = None) cs" for cs
    using that by (induction cs) (simp_all add: recorded_def)
  from g n show ?thesis by blast
qed

theorem nothing_extracted_message_witness:
  "summarize_folder
     (folder_env [ascii ''b.xyz'', ascii ''a.txt''] (\<lambda>p enc. Inl (ExternalError (ascii ''unreadable''))))
     example_url None loaded_world
   = (Inr (JStr NOTHING_EXTRACTED),
      loaded_world\<lparr>extract_calls := [(TextProcessor, example_path (ascii ''a.txt''))]\<rparr>)
   \<and> chat_calls (snd (summarize_folder
         (folder_env [ascii ''b.xyz'', ascii ''a.txt''] (\<lambda>p enc. Inl (ExternalError (ascii ''unreadable''))))
         example_url None loaded_world)) = []"
proof -
  let ?e = "folder_env [ascii ''b.xyz'', ascii ''a.txt''] (\<lambda>p enc. Inl (ExternalError (ascii ''unreadable'')))"
  let ?fs = "[example_path (ascii ''a.txt''), example_path (ascii ''b.xyz'')]"
  have x: "extraction_results ?e ?fs loaded_world
      = ([None, None], loaded_world\<lparr>extract_calls := [(TextProcessor, example_path (ascii ''a.txt''))]\<rparr>)"
    using example_processors(1) [of ?e "[]"] example_processors(2) [of ?e]
    by (simp add: Let_def extract_file_content_def processor_extract_def text_extract_def
        ENCODINGS_def folder_env_fields loaded_calls loaded_world_id)
  show ?thesis
    using nothing_extracted_message
      [where e = ?e and folder_url = example_url and output_dir = None and fs = ?fs
         and w = loaded_world]
    by (simp add: download_two x loaded_calls del: extraction_results.simps)
qed

subsection \<open>Keys and values of the dict\<close>

lemma dict_set_keys:
  "map fst (dict_set k v d) = (if k \<in> set (map fst d) then map fst d else map fst d @ [k])"
proof (induction d)
  case Nil
  show ?case by simp
next
  case (Cons x d)
  obtain k' v' where x: "x = (k', v')" by (cases x)
  show ?case
  proof (cases "k' = k")
    case True
    then show ?thesis unfolding x by simp
  next
    case False
    with Cons.IH show ?thesis unfolding x by (cases "k \<in> set (map fst d)") simp_all
  qed
qed

lemma dict_set_lookup: "map_of (dict_set k v d) = (map_of d)(k \<mapsto> v)"
  by (induction d) auto

lemma dict_set_new: "k \<notin> set (map fst d) \<Longrightarrow> dict_set k v d = d @ [(k, v)]"
  by (induction d) auto

lemma assign_all_keys:
  "map fst (assign_all d kvs)
   = map fst d @ filter (\<lambda>x. x \<notin> set (map fst d)) (first_seen (map fst kvs))"
proof (induction kvs arbitrary: d)
  case Nil
  show ?case by simp
next
  case (Cons kv kvs)
  obtain k v where kv: "kv = (k, v)" by (cases kv)
  show ?case
  proof (cases "k \<in> set (map fst d)")
    case True
    then show ?thesis
      unfolding kv assign_all.simps Cons.IH dict_set_keys
      by (simp add: first_seen_filter filter_drop_excluded)
  next
    case False
    then show ?thesis
      unfolding kv assign_all.simps Cons.IH dict_set_keys
      by (simp add: first_seen_filter conj_commute)
  qed
qed

lemma assign_all_lookup: "map_of (assign_all d kvs) = map_of d ++ map_of (rev kvs)"
proof (induction kvs arbitrary: d)
  case Nil
  show ?case by simp
next
  case (Cons kv kvs)
  obtain k v where kv: "kv = (k, v)" by (cases kv)
  show ?case
    unfolding kv assign_all.simps Cons.IH dict_set_lookup
    by (rule ext) (simp add: map_add_def split: option.splits)
qed

lemma last_assignment_wins:
  assumes "i < length kvs"
    and "\<forall>j. i < j \<and> j < length kvs \<longrightarrow> fst (kvs ! j) \<noteq> fst (kvs ! i)"
  shows "map_of (rev kvs) (fst (kvs ! i)) = Some (snd (kvs ! i))"
proof -
  from assms(1) have split: "kvs = take i kvs @ kvs ! i # drop (Suc i) kvs"
    by (simp add: id_take_nth_drop)
  have "fst (kvs ! i) \<notin> fst ` set (drop (Suc i) kvs)"
  proof
    assume "fst (kvs ! i) \<in> fst ` set (drop (Suc i) kvs)"
    then obtain x where x: "x \<in> set (drop (Suc i) kvs)" "fst x = fst (kvs ! i)" by auto
    then obtain n where n: "n < length (drop (Suc i) kvs)" "drop (Suc i) kvs ! n = x"
      by (auto simp: in_set_conv_nth)
    with assms(1) have "kvs ! (Suc i + n) = x" "Suc i + n < length kvs" by auto
    with assms(2) x show False by (metis less_add_Suc1 add_Suc)
  qed
  then have none: "map_of (rev (drop (Suc i) kvs)) (fst (kvs ! i)) = None"
    by (simp add: map_of_eq_None_iff)
  have "map_of (rev kvs) (fst (kvs ! i))
      = map_of (rev (drop (Suc i) kvs) @ (kvs ! i) # rev (take i kvs)) (fst (kvs ! i))"
    by (subst split) simp
  also have "\<dots> = Some (snd (kvs ! i))"
    using none by (cases "kvs ! i") (simp add: map_add_def)
  finally show ?thesis .
qed

lemma assign_all_distinct:
  "distinct (map fst d @ map fst kvs) \<Longrightarrow> assign_all d kvs = d @ kvs"
proof (induction kvs arbitrary: d)
  case Nil
  show ?case by simp
next
  case (Cons kv kvs)
  obtain k v where kv: "kv = (k, v)" by (cases kv)
  from Cons.prems have new: "k \<notin> set (map fst d)" and
    rest: "distinct (map fst (d @ [(k, v)]) @ map fst kvs)"
    unfolding kv by auto
  from Cons.IH [OF rest] new show ?case
    unfolding kv by (simp add: dict_set_new)
qed

lemma build_parts_sections:
  "build_parts e d parts = Inr ps \<Longrightarrow>
   map Inr ps = map Inr parts @ map (\<lambda>x. file_section e (fst x) (snd x)) d"
proof (induction d arbitrary: parts)
  case Nil
  then show ?case by simp
next
  case (Cons kv d)
  obtain k v where kv: "kv = (k, v)" by (cases kv)
  from Cons.prems obtain p where p: "file_section e k v = Inr p"
    and r: "build_parts e d (parts @ [p]) = Inr ps"
    unfolding kv by (auto split: sum.splits)
  from Cons.IH [OF r] p show ?case unfolding kv by simp
qed

lemma file_section_text: "file_section e nm (JStr s) = Inr (text_section nm s)"
  by (simp add: file_section_def text_section_def fmt_def)

lemma build_parts_text:
  "build_parts e (map (\<lambda>x. (fst x, JStr (snd x))) kss) parts
   = Inr (parts @ map (\<lambda>x. text_section (fst x) (snd x)) kss)"
  by (induction kss arbitrary: parts) (simp_all add: file_section_text)

lemma chat_records_call:
  "chat_calls (snd (chat e prompt system w)) = chat_calls w @ [(prompt, system)]"
proof -
  let ?w0 = "w\<lparr>chat_calls := chat_calls w @ [(prompt, system)]\<rparr>"
  let ?p = "\<lparr>model = TEXT_MODEL e,
      messages = (if system \<noteq> [] then [\<lparr>role = ascii ''system'', content = Text system\<rparr>] else [])
                 @ [\<lparr>role = ascii ''user'', content = Text prompt\<rparr>]\<rparr>"
  obtain res w1 where r: "request_with_retry e ?p ?w0 = (res, w1)"
    by (cases "request_with_retry e ?p ?w0")
  with request_with_retry_chat_calls [of e ?p ?w0]
  have w1: "chat_calls w1 = chat_calls w @ [(prompt, system)]" by simp
  have "snd (chat e prompt system w) = w1"
    using r by (cases res) (simp_all add: chat_def Let_def split: sum.splits)
  with w1 show ?thesis by simp
qed

lemma try_encodings_all_fail:
  "list_all (\<lambda>enc. read_text e f enc = Inl UnicodeDecodeError \<or> read_text e f enc = Inl ValueError) encs
   \<Longrightarrow> try_encodings e f encs = Inr []"
  by (induction encs) auto

text \<open>
  C9. A processor that returns the empty string without raising leaves the placeholder as
  the value recorded for its file, the same as a processor that raises. \<open>TextProcessor\<close>
  returns the empty string for an empty file and for a file that no encoding decodes. So a
  folder whose files all give the empty string ends in the nothing-extracted message, with
  no call of \<open>chat\<close>.
\<close>

theorem empty_content_is_recorded_as_failure:
  "(get_processor e f w = Some proc \<and> processor_extract e proc f w = (Inr (JStr []), w1) \<longrightarrow>
      extract_file_content e f w = (Some (JStr []), w1)
      \<and> extract_files e (f # fs) d w
        = extract_files e fs (dict_set (path_name f) (JStr EXTRACTION_FAILED) d) w1)
   \<and> (get_processor e f w = Some proc \<and> processor_extract e proc f w = (Inl x, w1) \<longrightarrow>
      extract_file_content e f w = (None, w1)
      \<and> extract_files e (f # fs) d w
        = extract_files e fs (dict_set (path_name f) (JStr EXTRACTION_FAILED) d) w1)
   \<and> (read_text e f (ascii ''utf-8'') = Inr [] \<longrightarrow>
      processor_extract e TextProcessor f w
      = (Inr (JStr []), w\<lparr>extract_calls := extract_calls w @ [(TextProcessor, f)]\<rparr>))
   \<and> (list_all (\<lambda>enc. read_text e f enc = Inl UnicodeDecodeError
                      \<or> read_text e f enc = Inl ValueError) ENCODINGS \<longrightarrow>
      processor_extract e TextProcessor f w
      = (Inr (JStr []), w\<lparr>extract_calls := extract_calls w @ [(TextProcessor, f)]\<rparr>))
   \<and> (download_folder e folder_url output_dir = Inr fs \<and> fs \<noteq> []
      \<and> list_all (\<lambda>c. c = Some (JStr [])) (fst (extraction_results e fs w)) \<longrightarrow>
      summarize_folder e folder_url output_dir w
      = (Inr (JStr NOTHING_EXTRACTED), snd (extraction_results e fs w))
      \<and> chat_calls (snd (summarize_folder e folder_url output_dir w)) = chat_calls w)"
proof (intro conjI impI)
  assume a: "get_processor e f w = Some proc \<and> processor_extract e proc f w = (Inr (JStr []), w1)"
  then show c: "extract_file_content e f w = (Some (JStr []), w1)"
    by (simp add: extract_file_content_def)
  then show "extract_files e (f # fs) d w
        = extract_files e fs (dict_set (path_name f) (JStr EXTRACTION_FAILED) d) w1"
    by (simp add: recorded_def)
next
  assume a: "get_processor e f w = Some proc \<and> processor_extract e proc f w = (Inl x, w1)"
  then show c: "extract_file_content e f w = (None, w1)"
    by (simp add: extract_file_content_def)
  then show "extract_files e (f # fs) d w
        = extract_files e fs (dict_set (path_name f) (JStr EXTRACTION_FAILED) d) w1"
    by (simp add: recorded_def)
next
  assume "read_text e f (ascii ''utf-8'') = Inr []"
  then show "processor_extract e TextProcessor f w
      = (Inr (JStr []), w\<lparr>extract_calls := extract_calls w @ [(TextProcessor, f)]\<rparr>)"
    by (simp add: processor_extract_def text_extract_def ENCODINGS_def)
next
  assume "list_all (\<lambda>enc. read_text e f enc = Inl UnicodeDecodeError
                      \<or> read_text e f enc = Inl ValueError) ENCODINGS"
  then show "processor_extract e TextProcessor f w
      = (Inr (JStr []), w\<lparr>extract_calls := extract_calls w @ [(TextProcessor, f)]\<rparr>)"
    by (simp add: processor_extract_def text_extract_def try_encodings_all_fail)
next
  assume a: "download_folder e folder_url output_dir = Inr fs \<and> fs \<noteq> []
      \<and> list_all (\<lambda>c. c = Some (JStr [])) (fst (extraction_results e fs w))"
  have n: "list_all (\<lambda>c. recorded c = JStr EXTRACTION_FAILED) cs"
    if "list_all (\<lambda>c. c = Some (JStr [])) cs" for cs
    using that by (induction cs) (simp_all add: recorded_def)
  from a n have r: "list_all (\<lambda>c. recorded c = JStr EXTRACTION_FAILED) (fst (extraction_results e fs w))"
    by blast
  from a nothing_extracted [OF _ _ r]
  show s: "summarize_folder e folder_url output_dir w
      = (Inr (JStr NOTHING_EXTRACTED), snd (extraction_results e fs w))"
    by blast
  show "chat_calls (snd (summarize_folder e folder_url output_dir w)) = chat_calls w"
    unfolding s by (simp add: extraction_results_chat_calls)
qed

theorem empty_content_is_recorded_as_failure_witness:
  "summarize_folder (folder_env [ascii ''a.txt''] (\<lambda>p enc. Inr [])) example_url None loaded_world
   = (Inr (JStr NOTHING_EXTRACTED),
      loaded_world\<lparr>extract_calls := [(TextProcessor, example_path (ascii ''a.txt''))]\<rparr>)
   \<and> chat_calls (snd (summarize_folder (folder_env [ascii ''a.txt''] (\<lambda>p enc. Inr []))
         example_url None loaded_world)) = []"
proof -
  let ?e = "folder_env [ascii ''a.txt''] (\<lambda>p enc. Inr [])"
  let ?fs = "[example_path (ascii ''a.txt'')]"
  have d: "download_folder ?e example_url None = Inr ?fs"
    by (simp add: download_folder_def folder_env_fields)
  have x: "extraction_results ?e ?fs loaded_world
      = ([Some (JStr [])], loaded_world\<lparr>extract_calls := [(TextProcessor, example_path (ascii ''a.txt''))]\<rparr>)"
    using example_processors(1) [of ?e "[]"]
    by (simp add: Let_def extract_file_content_def processor_extract_def text_extract_def
        ENCODINGS_def folder_env_fields loaded_calls loaded_world_id)
  show ?thesis
    using empty_content_is_recorded_as_failure
      [where e = ?e and f = "example_path (ascii ''a.txt'')" and w = loaded_world
         and proc = TextProcessor and fs = ?fs and d = "[]" and x = "ExternalError []"
         and ?w1.0 = "loaded_world\<lparr>extract_calls := [(TextProcessor, example_path (ascii ''a.txt''))]\<rparr>"
         and folder_url = example_url and output_dir = None]
    by (simp add: d x loaded_calls del: extraction_results.simps extract_files.simps)
qed

text \<open>
  C7. In the section of a file in the combined prompt, a content of more than 12000
  characters appears as its first 12000 characters followed by the truncation marker, and a
  content of at most 12000 characters appears unchanged. The prompt that \<open>chat\<close> receives is
  made of these sections, one for each entry of the dict, in its order.
\<close>

theorem long_content_is_truncated:
  "(length s > 12000 \<longrightarrow>
      file_section e nm (JStr s)
      = Inr (FILE_HEADER @ nm @ [10, 10] @ take 12000 s @ TRUNCATION_MARKER)
      \<and> length (take 12000 s) = 12000)
   \<and> (length s \<le> 12000 \<longrightarrow> file_section e nm (JStr s) = Inr (FILE_HEADER @ nm @ [10, 10] @ s))
   \<and> build_parts e (map (\<lambda>x. (fst x, JStr (snd x))) kss) []
     = Inr (map (\<lambda>x. text_section (fst x) (snd x)) kss)
   \<and> (download_folder e folder_url output_dir = Inr fs \<and> fs \<noteq> []
      \<and> extract_files e fs [] w = (map (\<lambda>x. (fst x, JStr (snd x))) kss, w1)
      \<and> list_ex (\<lambda>x. snd x \<noteq> EXTRACTION_FAILED) kss \<longrightarrow>
      summarize_folder e folder_url output_dir w
      = chat e (combined_prompt (map (\<lambda>x. text_section (fst x) (snd x)) kss)) SYSTEM_PROMPT w1
      \<and> chat_calls (snd (summarize_folder e folder_url output_dir w))
        = chat_calls w
          @ [(combined_prompt (map (\<lambda>x. text_section (fst x) (snd x)) kss), SYSTEM_PROMPT)])"
proof (intro conjI impI)
  assume "length s > 12000"
  then show "file_section e nm (JStr s)
      = Inr (FILE_HEADER @ nm @ [10, 10] @ take 12000 s @ TRUNCATION_MARKER)"
    by (simp add: file_section_text text_section_def)
next
  assume "length s > 12000"
  then show "length (take 12000 s) = 12000" by simp
next
  assume "length s \<le> 12000"
  then show "file_section e nm (JStr s) = Inr (FILE_HEADER @ nm @ [10, 10] @ s)"
    by (simp add: file_section_text text_section_def)
next
  show "build_parts e (map (\<lambda>x. (fst x, JStr (snd x))) kss) []
     = Inr (map (\<lambda>x. text_section (fst x) (snd x)) kss)"
    using build_parts_text [of e kss "[]"] by simp
next
  assume a: "download_folder e folder_url output_dir = Inr fs \<and> fs \<noteq> []
      \<and> extract_files e fs [] w = (map (\<lambda>x. (fst x, JStr (snd x))) kss, w1)
      \<and> list_ex (\<lambda>x. snd x \<noteq> EXTRACTION_FAILED) kss"
  then have ex: "list_ex (\<lambda>v. v \<noteq> JStr EXTRACTION_FAILED)
      (map snd (map (\<lambda>x. (fst x, JStr (snd x))) kss))"
    by (auto simp: list_ex_iff)
  from a ex build_parts_text [of e kss "[]"]
  show s: "summarize_folder e folder_url output_dir w
      = chat e (combined_prompt (map (\<lambda>x. text_section (fst x) (snd x)) kss)) SYSTEM_PROMPT w1"
    by (simp add: summarize_folder_def)
  from a have "w1 = snd (extraction_results e fs w)"
    by (simp add: extract_files_assign_all)
  then have "chat_calls w1 = chat_calls w"
    by (simp add: extraction_results_chat_calls)
  then show "chat_calls (snd (summarize_folder e folder_url output_dir w))
        = chat_calls w
          @ [(combined_prompt (map (\<lambda>x. text_section (fst x) (snd x)) kss), SYSTEM_PROMPT)]"
    unfolding s by (simp add: chat_records_call)
qed

theorem long_content_is_truncated_witness:
  "length (replicate 12001 (97::nat)) > 12000
   \<and> file_section (folder_env [ascii ''a.txt''] (\<lambda>p enc. Inr (replicate 12001 97)))
       (ascii ''a.txt'') (JStr (replicate 12001 97))
     = Inr (FILE_HEADER @ ascii ''a.txt'' @ [10, 10] @ replicate 12000 97 @ TRUNCATION_MARKER)
   \<and> chat_calls (snd (summarize_folder
         (folder_env [ascii ''a.txt''] (\<lambda>p enc. Inr (replicate 12001 97)))
         example_url None loaded_world))
     = [(PROMPT_HEADER @ FILE_HEADER @ ascii ''a.txt'' @ [10, 10] @ replicate 12000 97
           @ TRUNCATION_MARKER,
         SYSTEM_PROMPT)]"
proof -
  let ?e = "folder_env [ascii ''a.txt''] (\<lambda>p enc. Inr (replicate 12001 97))"
  let ?fs = "[example_path (ascii ''a.txt'')]"
  let ?w1 = "loaded_world\<lparr>extract_calls := [(TextProcessor, example_path (ascii ''a.txt''))]\<rparr>"
  have d: "download_folder ?e example_url None = Inr ?fs"
    by (simp add: download_folder_def folder_env_fields)
  have ne: "replicate 12001 (97::nat) \<noteq> []" "replicate 12001 (97::nat) \<noteq> EXTRACTION_FAILED"
    by (auto simp: EXTRACTION_FAILED_def dest: arg_cong [where f = length])
  have x: "extract_files ?e ?fs [] loaded_world
      = (map (\<lambda>x. (fst x, JStr (snd x))) [(ascii ''a.txt'', replicate 12001 97)], ?w1)"
    using example_processors(1) [of ?e "[]"] ne
    by (simp add: extract_file_content_def processor_extract_def text_extract_def
        ENCODINGS_def folder_env_fields loaded_calls loaded_world_id recorded_def example_paths)
  show ?thesis
    using long_content_is_truncated
      [where s = "replicate 12001 97" and e = ?e and nm = "ascii ''a.txt''"
         and kss = "[(ascii ''a.txt'', replicate 12001 97)]" and folder_url = example_url
         and output_dir = None and fs = ?fs and w = loaded_world and ?w1.0 = ?w1]
    using ne
    by (simp add: d x loaded_calls combined_prompt_def text_section_def chat_records_call
        del: extract_files.simps)
qed

lemma dict_set_map_values:
  "dict_set k (f v) (map (\<lambda>x. (fst x, f (snd x))) d)
   = map (\<lambda>x. (fst x, f (snd x))) (dict_set k v d)"
  by (induction d) auto

lemma assign_all_map_values:
  "assign_all (map (\<lambda>x. (fst x, f (snd x))) d) (map (\<lambda>x. (fst x, f (snd x))) kvs)
   = map (\<lambda>x. (fst x, f (snd x))) (assign_all d kvs)"
proof (induction kvs arbitrary: d)
  case Nil
  show ?case by simp
next
  case (Cons kv kvs)
  obtain k v where kv: "kv = (k, v)" by (cases kv)
  show ?case
    unfolding kv using Cons.IH [of "dict_set k v d"] by (simp add: dict_set_map_values)
qed

lemma zip_map_values: "zip ns (map f ss) = map (\<lambda>x. (fst x, f (snd x))) (zip ns ss)"
  by (simp add: zip_map2 case_prod_beta)

lemma text_dict:
  assumes "map recorded (fst (extraction_results e fs w)) = map JStr ss"
  shows "fst (extract_files e fs [] w)
         = map (\<lambda>x. (fst x, JStr (snd x))) (assign_all [] (zip (map path_name fs) ss))"
  using assign_all_map_values [of JStr "[]" "zip (map path_name fs) ss"]
  by (simp add: extract_files_assign_all assms zip_map_values)

lemma text_prompt:
  assumes "download_folder e folder_url output_dir = Inr fs" and "fs \<noteq> []"
    and "map recorded (fst (extraction_results e fs w)) = map JStr ss"
    and "list_ex (\<lambda>x. snd x \<noteq> EXTRACTION_FAILED) (assign_all [] (zip (map path_name fs) ss))"
  shows "summarize_folder e folder_url output_dir w
         = chat e (PROMPT_HEADER @ join SEPARATOR
               (map (\<lambda>x. text_section (fst x) (snd x)) (assign_all [] (zip (map path_name fs) ss))))
             SYSTEM_PROMPT (snd (extraction_results e fs w))"
proof -
  let ?d = "assign_all [] (zip (map path_name fs) ss)"
  have x: "extract_files e fs [] w
      = (map (\<lambda>x. (fst x, JStr (snd x))) ?d, snd (extraction_results e fs w))"
    using text_dict [OF assms(3)] by (simp add: extract_files_assign_all)
  from assms(4) have ex: "list_ex (\<lambda>v. v \<noteq> JStr EXTRACTION_FAILED)
      (map snd (map (\<lambda>x. (fst x, JStr (snd x))) ?d))"
    by (auto simp: list_ex_iff)
  from assms(1,2) x ex build_parts_text [of e ?d "[]"] show ?thesis
    by (simp add: summarize_folder_def combined_prompt_def)
qed

text \<open>
  C10. The values of the files are kept in a dict keyed by the name of the file. Its keys are
  the names in the order in which they first occur, so a name has one entry; the entry holds
  the value of the last file of that name in download order. When the names are pairwise
  distinct, every file has its own entry, in download order. The prompt that \<open>chat\<close>
  receives is the opening followed by one section for each entry of the dict, in its order,
  joined by the separator; for string values the section of an entry is the header, the
  name, an empty line and the content, cut after 12000 characters. So two files of one name
  give one section: it stands where the first of them would, and holds the content of the
  last.
\<close>

theorem per_file_is_keyed_by_name:
  "fst (extract_files e fs [] w)
   = assign_all [] (zip (map path_name fs) (map recorded (fst (extraction_results e fs w))))
   \<and> map fst (fst (extract_files e fs [] w)) = first_seen (map path_name fs)
   \<and> distinct (map fst (fst (extract_files e fs [] w)))
   \<and> (i < length fs
      \<and> (\<forall>j. i < j \<and> j < length fs \<longrightarrow> path_name (fs ! j) \<noteq> path_name (fs ! i)) \<longrightarrow>
      map_of (fst (extract_files e fs [] w)) (path_name (fs ! i))
      = Some (recorded (fst (extraction_results e fs w) ! i)))
   \<and> (distinct (map path_name fs) \<longrightarrow>
      fst (extract_files e fs [] w)
      = zip (map path_name fs) (map recorded (fst (extraction_results e fs w))))
   \<and> (build_parts e (fst (extract_files e fs [] w)) [] = Inr ps \<longrightarrow>
      map Inr ps = map (\<lambda>x. file_section e (fst x) (snd x)) (fst (extract_files e fs [] w)))
   \<and> (download_folder e folder_url output_dir = Inr fs \<and> fs \<noteq> []
      \<and> map recorded (fst (extraction_results e fs w)) = map JStr ss
      \<and> list_ex (\<lambda>x. snd x \<noteq> EXTRACTION_FAILED) (assign_all [] (zip (map path_name fs) ss)) \<longrightarrow>
      summarize_folder e folder_url output_dir w
      = chat e
          (PROMPT_HEADER @ join SEPARATOR
             (map (\<lambda>x. FILE_HEADER @ fst x @ [10, 10]
                        @ (if length (snd x) > 12000 then take 12000 (snd x) @ TRUNCATION_MARKER
                           else snd x))
                (assign_all [] (zip (map path_name fs) ss))))
          SYSTEM_PROMPT (snd (extraction_results e fs w))
      \<and> chat_calls (snd (summarize_folder e folder_url output_dir w))
        = chat_calls w
          @ [(PROMPT_HEADER @ join SEPARATOR
                (map (\<lambda>x. FILE_HEADER @ fst x @ [10, 10]
                           @ (if length (snd x) > 12000 then take 12000 (snd x) @ TRUNCATION_MARKER
                              else snd x))
                   (assign_all [] (zip (map path_name fs) ss))),
              SYSTEM_PROMPT)]
      \<and> map fst (assign_all [] (zip (map path_name fs) ss)) = first_seen (map path_name fs)
      \<and> (i < length fs
         \<and> (\<forall>j. i < j \<and> j < length fs \<longrightarrow> path_name (fs ! j) \<noteq> path_name (fs ! i)) \<longrightarrow>
         map_of (assign_all [] (zip (map path_name fs) ss)) (path_name (fs ! i)) = Some (ss ! i))
      \<and> (distinct (map path_name fs) \<longrightarrow>
         assign_all [] (zip (map path_name fs) ss) = zip (map path_name fs) ss))"
proof -
  have dict: "fst (extract_files e fs [] w)
   = assign_all [] (zip (map path_name fs) (map recorded (fst (extraction_results e fs w))))
   \<and> map fst (fst (extract_files e fs [] w)) = first_seen (map path_name fs)
   \<and> distinct (map fst (fst (extract_files e fs [] w)))
   \<and> (i < length fs
      \<and> (\<forall>j. i < j \<and> j < length fs \<longrightarrow> path_name (fs ! j) \<noteq> path_name (fs ! i)) \<longrightarrow>
      map_of (fst (extract_files e fs [] w)) (path_name (fs ! i))
      = Some (recorded (fst (extraction_results e fs w) ! i)))
   \<and> (distinct (map path_name fs) \<longrightarrow>
      fst (extract_files e fs [] w)
      = zip (map path_name fs) (map recorded (fst (extraction_results e fs w))))
   \<and> (build_parts e (fst (extract_files e fs [] w)) [] = Inr ps \<longrightarrow>
      map Inr ps = map (\<lambda>x. file_section e (fst x) (snd x)) (fst (extract_files e fs [] w)))"
  proof -
    let ?cs = "fst (extraction_results e fs w)"
    let ?kvs = "zip (map path_name fs) (map recorded ?cs)"
    have len: "length ?cs = length fs" by (rule extraction_results_length)
    then have keys: "map fst ?kvs = map path_name fs" by simp
    have d: "fst (extract_files e fs [] w) = assign_all [] ?kvs"
      by (simp add: extract_files_assign_all)
    have k: "map fst (assign_all [] ?kvs) = first_seen (map path_name fs)"
      by (simp only: assign_all_keys keys) simp
    have last: "map_of (assign_all [] ?kvs) (path_name (fs ! i)) = Some (recorded (?cs ! i))"
      if i: "i < length fs"
        and later: "\<forall>j. i < j \<and> j < length fs \<longrightarrow> path_name (fs ! j) \<noteq> path_name (fs ! i)"
    proof -
      from i len have n: "i < length ?kvs" "?kvs ! i = (path_name (fs ! i), recorded (?cs ! i))"
        by simp_all
      have "\<forall>j. i < j \<and> j < length ?kvs \<longrightarrow> fst (?kvs ! j) \<noteq> fst (?kvs ! i)"
        using later len i by simp
      from last_assignment_wins [OF n(1) this] n(2) show ?thesis
        by (simp add: assign_all_lookup)
    qed
    have dis: "assign_all [] ?kvs = ?kvs" if "distinct (map path_name fs)"
      using assign_all_distinct [of "[]" ?kvs] that keys by simp
    have sec: "map Inr ps = map (\<lambda>x. file_section e (fst x) (snd x)) dd"
      if "build_parts e dd [] = Inr ps" for dd
      using build_parts_sections [OF that] by simp
    show ?thesis
      unfolding d using k last dis sec [of "assign_all [] ?kvs"]
      by (simp add: distinct_first_seen)
  qed
  have prompt: "summarize_folder e folder_url output_dir w
      = chat e
          (PROMPT_HEADER @ join SEPARATOR
             (map (\<lambda>x. FILE_HEADER @ fst x @ [10, 10]
                        @ (if length (snd x) > 12000 then take 12000 (snd x) @ TRUNCATION_MARKER
                           else snd x))
                (assign_all [] (zip (map path_name fs) ss))))
          SYSTEM_PROMPT (snd (extraction_results e fs w))
      \<and> chat_calls (snd (summarize_folder e folder_url output_dir w))
        = chat_calls w
          @ [(PROMPT_HEADER @ join SEPARATOR
                (map (\<lambda>x. FILE_HEADER @ fst x @ [10, 10]
                           @ (if length (snd x) > 12000 then take 12000 (snd x) @ TRUNCATION_MARKER
                              else snd x))
                   (assign_all [] (zip (map path_name fs) ss))),
              SYSTEM_PROMPT)]
      \<and> map fst (assign_all [] (zip (map path_name fs) ss)) = first_seen (map path_name fs)
      \<and> (i < length fs
         \<and> (\<forall>j. i < j \<and> j < length fs \<longrightarrow> path_name (fs ! j) \<noteq> path_name (fs ! i)) \<longrightarrow>
         map_of (assign_all [] (zip (map path_name fs) ss)) (path_name (fs ! i)) = Some (ss ! i))
      \<and> (distinct (map path_name fs) \<longrightarrow>
         assign_all [] (zip (map path_name fs) ss) = zip (map path_name fs) ss)"
    if a: "download_folder e folder_url output_dir = Inr fs \<and> fs \<noteq> []
      \<and> map recorded (fst (extraction_results e fs w)) = map JStr ss
      \<and> list_ex (\<lambda>x. snd x \<noteq> EXTRACTION_FAILED) (assign_all [] (zip (map path_name fs) ss))"
  proof -
    let ?kvs = "zip (map path_name fs) ss"
    from a have "length (map recorded (fst (extraction_results e fs w))) = length (map JStr ss)"
      by simp
    then have len: "length ss = length fs" by (simp add: extraction_results_length)
    then have keys: "map fst ?kvs = map path_name fs" by simp
    from a have s: "summarize_folder e folder_url output_dir w
      = chat e (PROMPT_HEADER @ join SEPARATOR
               (map (\<lambda>x. text_section (fst x) (snd x)) (assign_all [] ?kvs)))
             SYSTEM_PROMPT (snd (extraction_results e fs w))"
      using text_prompt by blast
    have c: "chat_calls (snd (summarize_folder e folder_url output_dir w))
        = chat_calls w
          @ [(PROMPT_HEADER @ join SEPARATOR
                (map (\<lambda>x. text_section (fst x) (snd x)) (assign_all [] ?kvs)), SYSTEM_PROMPT)]"
      unfolding s by (simp add: chat_records_call extraction_results_chat_calls)
    have k: "map fst (assign_all [] ?kvs) = first_seen (map path_name fs)"
      by (simp only: assign_all_keys keys) simp
    have last: "map_of (assign_all [] ?kvs) (path_name (fs ! i)) = Some (ss ! i)"
      if i: "i < length fs"
        and later: "\<forall>j. i < j \<and> j < length fs \<longrightarrow> path_name (fs ! j) \<noteq> path_name (fs ! i)"
    proof -
      from i len have n: "i < length ?kvs" "?kvs ! i = (path_name (fs ! i), ss ! i)"
        by simp_all
      have "\<forall>j. i < j \<and> j < length ?kvs \<longrightarrow> fst (?kvs ! j) \<noteq> fst (?kvs ! i)"
        using later len i by simp
      from last_assignment_wins [OF n(1) this] n(2) show ?thesis
        by (simp add: assign_all_lookup)
    qed
    have dis: "assign_all [] ?kvs = ?kvs" if "distinct (map path_name fs)"
      using assign_all_distinct [of "[]" ?kvs] that keys by simp
    from s c k last dis show ?thesis
      by (simp add: text_section_def [abs_def])
  qed
  from dict prompt show ?thesis by blast
qed

theorem per_file_is_keyed_by_name_witness:
  "download_folder
     (folder_env [ascii ''y/a.txt'', ascii ''x/b.txt'', ascii ''x/a.txt''] (\<lambda>p enc. Inr (path_str p)))
     example_url None
   = Inr [example_path (ascii ''x/a.txt''), example_path (ascii ''x/b.txt''),
          example_path (ascii ''y/a.txt'')]
   \<and> fst (extract_files
        (folder_env [ascii ''y/a.txt'', ascii ''x/b.txt'', ascii ''x/a.txt''] (\<lambda>p enc. Inr (path_str p)))
        [example_path (ascii ''x/a.txt''), example_path (ascii ''x/b.txt''),
         example_path (ascii ''y/a.txt'')] [] loaded_world)
     = [(ascii ''a.txt'', JStr (ascii ''y/a.txt'')), (ascii ''b.txt'', JStr (ascii ''x/b.txt''))]
   \<and> chat_calls (snd (summarize_folder
        (folder_env [ascii ''y/a.txt'', ascii ''x/b.txt'', ascii ''x/a.txt''] (\<lambda>p enc. Inr (path_str p)))
        example_url None loaded_world))
     = [(PROMPT_HEADER
           @ FILE_HEADER @ ascii ''a.txt'' @ [10, 10] @ ascii ''y/a.txt''
           @ SEPARATOR
           @ FILE_HEADER @ ascii ''b.txt'' @ [10, 10] @ ascii ''x/b.txt'',
         SYSTEM_PROMPT)]
   \<and> fst (extract_files
        (folder_env [ascii ''x/b.txt'', ascii ''x/a.txt''] (\<lambda>p enc. Inr (path_str p)))
        [example_path (ascii ''x/a.txt''), example_path (ascii ''x/b.txt'')] [] loaded_world)
     = [(ascii ''a.txt'', JStr (ascii ''x/a.txt'')), (ascii ''b.txt'', JStr (ascii ''x/b.txt''))]"
proof -
  let ?e = "folder_env [ascii ''y/a.txt'', ascii ''x/b.txt'', ascii ''x/a.txt''] (\<lambda>p enc. Inr (path_str p))"
  let ?e2 = "folder_env [ascii ''x/b.txt'', ascii ''x/a.txt''] (\<lambda>p enc. Inr (path_str p))"
  let ?fs = "[example_path (ascii ''x/a.txt''), example_path (ascii ''x/b.txt''),
         example_path (ascii ''y/a.txt'')]"
  let ?fs2 = "[example_path (ascii ''x/a.txt''), example_path (ascii ''x/b.txt'')]"
  let ?ss = "[ascii ''x/a.txt'', ascii ''x/b.txt'', ascii ''y/a.txt'']"
  have d: "download_folder ?e example_url None = Inr ?fs"
    by (simp add: download_folder_def folder_env_fields example_path_def ascii_def)
  have s: "path_str (example_path t) = t" for t
    by (simp add: example_path_def)
  have ne: "ascii ''x/a.txt'' \<noteq> []" "ascii ''x/b.txt'' \<noteq> []" "ascii ''y/a.txt'' \<noteq> []"
    "ascii ''b.txt'' \<noteq> ascii ''a.txt''" "ascii ''a.txt'' \<noteq> ascii ''b.txt''"
    "ascii ''y/a.txt'' \<noteq> EXTRACTION_FAILED"
    "length (ascii ''y/a.txt'') = 7" "length (ascii ''x/b.txt'') = 7"
    by (simp_all add: ascii_def EXTRACTION_FAILED_def)
  have x: "fst (extraction_results ?e ?fs loaded_world)
      = [Some (JStr (ascii ''x/a.txt'')), Some (JStr (ascii ''x/b.txt'')),
         Some (JStr (ascii ''y/a.txt''))]"
    using example_processors(3) [of ?e "[]"] example_processors(4) [of ?e] example_processors(5) [of ?e]
    by (simp add: Let_def extract_file_content_def processor_extract_def text_extract_def
        ENCODINGS_def folder_env_fields loaded_calls loaded_world_id s)
  have x2: "fst (extraction_results ?e2 ?fs2 loaded_world)
      = [Some (JStr (ascii ''x/a.txt'')), Some (JStr (ascii ''x/b.txt''))]"
    using example_processors(3) [of ?e2 "[]"] example_processors(4) [of ?e2]
    by (simp add: Let_def extract_file_content_def processor_extract_def text_extract_def
        ENCODINGS_def folder_env_fields loaded_calls loaded_world_id s)
  have r: "map recorded (fst (extraction_results ?e ?fs loaded_world)) = map JStr ?ss"
    unfolding x by (simp add: recorded_def ne)
  have a: "assign_all [] (zip (map path_name ?fs) ?ss)
      = [(ascii ''a.txt'', ascii ''y/a.txt''), (ascii ''b.txt'', ascii ''x/b.txt'')]"
    by (simp add: example_paths ne)
  show ?thesis
    using per_file_is_keyed_by_name
      [where e = ?e and fs = ?fs and w = loaded_world and i = 2 and ps = "[]"
         and folder_url = example_url and output_dir = None and ss = ?ss]
      per_file_is_keyed_by_name
      [where e = ?e2 and fs = ?fs2 and w = loaded_world and i = 0 and ps = "[]"
         and folder_url = example_url and output_dir = None and ss = "[]"]
    unfolding r a
    by (simp add: d x x2 example_paths recorded_def ne loaded_calls chat_records_call
        extraction_results_chat_calls
        del: extraction_results.simps extract_files.simps)
qed

end
